theory Spec2Isabelle
  imports Main "HOL-Library.Char_ord" "HOL-Library.List_Lexorder"
begin

section \<open>Errors\<close>

text \<open>
  The authorizer signals failure by throwing. Three kinds of throwable occur in
  \<^verbatim>\<open>protocol-authorization.ts\<close>: a \<^verbatim>\<open>DwnError\<close> with a code, a plain
  \<^verbatim>\<open>Error\<close> with a message (one constructor per throw site; the interpolated message
  text is not modelled), and the JavaScript runtime's \<^verbatim>\<open>TypeError\<close> raised when a
  property of \<^verbatim>\<open>undefined\<close> is read.
\<close>

datatype DwnErrorCode =
    ProtocolAuthorizationMissingRuleSet
  | ProtocolAuthorizationInvalidRecordDefinition
  | ProtocolAuthorizationIncorrectProtocolPath
  | ProtocolAuthorizationInvalidSchema
  | ProtocolAuthorizationIncorrectDataFormat

datatype ErrorMessage =
    UnableToFindProtocolDefinition
  | NoParentFound
  | NoAllowRuleDefined
  | ActionNotInAllowedActions
  | AuthorMustMatchInitialWrite
  | MismatchingRecordSchema

datatype error = DwnError DwnErrorCode | Error ErrorMessage | TypeError

section \<open>Data model of the protocol authorizer\<close>

datatype DwnInterfaceName = Records | Protocols | Permissions

datatype DwnMethodName = Read | Write | Query | Configure | Grant | Revoke

datatype ProtocolAction = ActionRead | ActionWrite

datatype ProtocolActor = Anyone | Author | Recipient

record ProtocolRecordDefinition =
  rd_id :: string
  rd_schema :: "string option"
  rd_dataFormats :: "string list option"

record ProtocolAllowRule =
  actor :: ProtocolActor
  actions :: "ProtocolAction list"
  rule_protocolPath :: "string option"

text \<open>A rule set: an optional \<^verbatim>\<open>allow\<close> list and an optional \<^verbatim>\<open>records\<close> object
  keyed by record-definition id.\<close>

datatype ProtocolRuleSet =
  ProtocolRuleSet (allow: "ProtocolAllowRule list option")
                  (records: "(string \<times> ProtocolRuleSet) list option")

record ProtocolDefinition =
  recordDefinitions :: "ProtocolRecordDefinition list"
  pd_records :: "(string \<times> ProtocolRuleSet) list option"

record RecordsWriteDescriptor =
  protocol :: "string option"
  protocolPath :: "string option"
  parentId :: "string option"
  recipient :: "string option"
  schema :: "string option"
  dataFormat :: string
  messageTimestamp :: string

text \<open>A stored \<^verbatim>\<open>RecordsWriteMessage\<close>. The field \<open>signer\<close> stands for the
  authorization block: it is the DID that \<^verbatim>\<open>Message.getAuthor\<close> extracts from it.\<close>

record RecordsWriteMessage =
  recordId :: string
  contextId :: "string option"
  descriptor :: RecordsWriteDescriptor
  signer :: "string option"

record ProtocolsConfigureMessage =
  cfg_protocol :: string
  cfg_messageTimestamp :: string
  cfg_definition :: ProtocolDefinition

text \<open>
  The incoming message is a \<^verbatim>\<open>RecordsRead | RecordsWrite\<close> class instance; the source
  tells the two apart by \<^verbatim>\<open>message.descriptor.method\<close>. Of a \<^verbatim>\<open>RecordsWrite\<close>
  instance the authorizer uses the wrapped message, the \<^verbatim>\<open>author\<close> property and the
  result of \<^verbatim>\<open>isInitialWrite()\<close>. That method is declared outside this file (it
  compares a content hash with the record id), so its result is carried as a field.
\<close>

record RecordsWrite =
  message :: RecordsWriteMessage
  author :: "string option"
  isInitialWrite :: bool

record RecordsRead =
  read_recordId :: string

datatype IncomingMessage = IncomingRead RecordsRead | IncomingWrite RecordsWrite

fun incomingMethod :: "IncomingMessage \<Rightarrow> DwnMethodName" where
  "incomingMethod (IncomingRead _) = Read"
| "incomingMethod (IncomingWrite _) = Write"

section \<open>The Message Store interface\<close>

text \<open>A query filter: index name to value; an index the filter does not mention is
  \<open>None\<close>.\<close>

record Filter =
  f_interface :: "DwnInterfaceName option"
  f_method :: "DwnMethodName option"
  f_protocol :: "string option"
  f_contextId :: "string option"
  f_recordId :: "string option"
  f_entryId :: "string option"

definition emptyFilter :: Filter where
  "emptyFilter = \<lparr> f_interface = None, f_method = None, f_protocol = None,
                   f_contextId = None, f_recordId = None, f_entryId = None \<rparr>"

text \<open>
  The Message Store is an injected collaborator; the authorizer only calls
  \<^verbatim>\<open>query(tenant, filter)\<close> and casts the result to the message type it expects. The
  store is therefore a parameter: one query function per result type that a call site
  casts to. Nothing is assumed about the order of the returned list, nor that the store
  honours the filter.
\<close>

record MessageStore =
  queryRecordsWrite :: "string \<Rightarrow> Filter \<Rightarrow> RecordsWriteMessage list"
  queryProtocolsConfigure :: "string \<Rightarrow> Filter \<Rightarrow> ProtocolsConfigureMessage list"

section \<open>String helpers of the JavaScript runtime\<close>

text \<open>\<^verbatim>\<open>s.split(sep)\<close> for a one-character separator: never empty, \<^verbatim>\<open>''.split('/')\<close>
  is \<^verbatim>\<open>['']\<close>.\<close>

fun js_split :: "char \<Rightarrow> string \<Rightarrow> string list" where
  "js_split sep [] = [[]]"
| "js_split sep (c # cs) =
     (if c = sep then [] # js_split sep cs
      else (c # hd (js_split sep cs)) # tl (js_split sep cs))"

text \<open>\<^verbatim>\<open>xs.join(sep)\<close>.\<close>

fun js_join :: "string \<Rightarrow> string list \<Rightarrow> string" where
  "js_join sep [] = []"
| "js_join sep [x] = x"
| "js_join sep (x # y # ys) = x @ sep @ js_join sep (y # ys)"

section \<open>ProtocolAuthorization\<close>

text \<open>\<^verbatim>\<open>getRecordDefinitionId\<close>: \<^verbatim>\<open>protocolPath.split('/').slice(-1)[0]\<close>. Call sites
  pass \<^verbatim>\<open>descriptor.protocolPath!\<close>; the assertion is erased at run time, so an absent
  path reaches \<^verbatim>\<open>.split\<close> as \<^verbatim>\<open>undefined\<close> and raises a TypeError.\<close>

definition getRecordDefinitionId :: "string option \<Rightarrow> error + string" where
  "getRecordDefinitionId path =
     (case path of
        None \<Rightarrow> Inl TypeError
      | Some p \<Rightarrow> Inr (last (js_split CHR ''/'' p)))"

subsection \<open>fetchProtocolDefinition\<close>

definition protocolsConfigureFilter :: "string option \<Rightarrow> Filter" where
  "protocolsConfigureFilter protocolUri =
     emptyFilter \<lparr> f_interface := Some Protocols, f_method := Some Configure,
                   f_protocol := protocolUri \<rparr>"

text \<open>\<^verbatim>\<open>ancestorMessageChain[ancestorMessageChain.length-1].descriptor.protocol!\<close>: on an
  empty chain the indexed element is \<^verbatim>\<open>undefined\<close> and reading its descriptor raises.\<close>

definition fetchProtocolDefinition ::
  "string \<Rightarrow> IncomingMessage \<Rightarrow> RecordsWriteMessage list \<Rightarrow> MessageStore
     \<Rightarrow> error + ProtocolDefinition" where
  "fetchProtocolDefinition tenant incomingMessage ancestorMessageChain messageStore =
     (case (case incomingMessage of
              IncomingWrite w \<Rightarrow> Inr (protocol (descriptor (message w)))
            | IncomingRead r \<Rightarrow>
                (if ancestorMessageChain = [] then Inl TypeError
                 else Inr (protocol (descriptor
                        (ancestorMessageChain ! (length ancestorMessageChain - 1)))))) of
        Inl e \<Rightarrow> Inl e
      | Inr protocolUri \<Rightarrow>
          (case queryProtocolsConfigure messageStore tenant
                  (protocolsConfigureFilter protocolUri) of
             [] \<Rightarrow> Inl (Error UnableToFindProtocolDefinition)
           | protocolMessage # _ \<Rightarrow> Inr (cfg_definition protocolMessage)))"

subsection \<open>constructAncestorMessageChain\<close>

definition parentFilter :: "string option \<Rightarrow> string option \<Rightarrow> string \<Rightarrow> Filter" where
  "parentFilter protocolUri ctx currentParentId =
     emptyFilter \<lparr> f_interface := Some Records, f_method := Some Write,
                   f_protocol := protocolUri, f_contextId := ctx,
                   f_recordId := Some currentParentId \<rparr>"

definition recordIdFilter :: "string \<Rightarrow> Filter" where
  "recordIdFilter rid =
     emptyFilter \<lparr> f_interface := Some Records, f_method := Some Write,
                   f_recordId := Some rid \<rparr>"

text \<open>
  The \<^verbatim>\<open>while (currentParentId !== undefined)\<close> loop. Each round queries the store for
  the parent and pushes it on the chain. A store whose parent links form a cycle keeps the
  loop running, so the walk is a partial function: \<open>None\<close> is "does not return".
\<close>

partial_function (option) walkAncestors ::
  "MessageStore \<Rightarrow> string \<Rightarrow> string option \<Rightarrow> string option \<Rightarrow> string option
     \<Rightarrow> RecordsWriteMessage list \<Rightarrow> (error + RecordsWriteMessage list) option" where
  "walkAncestors messageStore tenant protocolUri ctx currentParentId chain =
     (case currentParentId of
        None \<Rightarrow> Some (Inr chain)
      | Some pid \<Rightarrow>
          (case queryRecordsWrite messageStore tenant (parentFilter protocolUri ctx pid) of
             [] \<Rightarrow> Some (Inl (Error NoParentFound))
           | parent # _ \<Rightarrow>
               walkAncestors messageStore tenant protocolUri ctx
                 (parentId (descriptor parent)) (chain @ [parent])))"

text \<open>
  For a read the source calls \<^verbatim>\<open>RecordsWrite.getNewestMessage\<close> on the query result and
  \<^verbatim>\<open>RecordsWrite.parse\<close> on what that returns. Both are declared outside this file; their
  composition is the parameter \<open>newestWrite\<close>, which yields the message of the parsed
  newest write or the error the two raise.
\<close>

definition constructAncestorMessageChain ::
  "(RecordsWriteMessage list \<Rightarrow> error + RecordsWriteMessage) \<Rightarrow> string \<Rightarrow> IncomingMessage
     \<Rightarrow> MessageStore \<Rightarrow> (error + RecordsWriteMessage list) option" where
  "constructAncestorMessageChain newestWrite tenant incomingMessage messageStore =
     (case (case incomingMessage of
              IncomingWrite w \<Rightarrow> Inr (message w, [])
            | IncomingRead r \<Rightarrow>
                (case newestWrite (queryRecordsWrite messageStore tenant
                                     (recordIdFilter (read_recordId r))) of
                   Inl e \<Rightarrow> Inl e
                 | Inr m \<Rightarrow> Inr (m, [m]))) of
        Inl e \<Rightarrow> Some (Inl e)
      | Inr (recordsWriteMessage, chain0) \<Rightarrow>
          map_option (map_sum id rev)
            (walkAncestors messageStore tenant
               (protocol (descriptor recordsWriteMessage)) (contextId recordsWriteMessage)
               (parentId (descriptor recordsWriteMessage)) chain0))"

subsection \<open>getRuleSet\<close>

text \<open>
  The properties every JavaScript object inherits from \<^verbatim>\<open>Object.prototype\<close>. A
  property read \<^verbatim>\<open>obj[key]\<close> with one of these keys finds the inherited value (a
  function, or the prototype itself for \<^verbatim>\<open>__proto__\<close>) when the object has no own
  property of that name.
\<close>

definition objectPrototypeProperties :: "string list" where
  "objectPrototypeProperties =
     [''constructor'', ''__defineGetter__'', ''__defineSetter__'', ''hasOwnProperty'',
      ''__lookupGetter__'', ''__lookupSetter__'', ''isPrototypeOf'',
      ''propertyIsEnumerable'', ''toString'', ''valueOf'', ''__proto__'',
      ''toLocaleString'']"

text \<open>
  \<^verbatim>\<open>currentRuleSet.records?.[id]\<close>: \<^verbatim>\<open>undefined\<close> when there is no \<^verbatim>\<open>records\<close> object;
  otherwise the own property \<open>id\<close> of the object (its keys are distinct), or else the
  inherited one when \<open>id\<close> names a property of \<^verbatim>\<open>Object.prototype\<close>, or else
  \<^verbatim>\<open>undefined\<close>. An inherited value has neither an \<^verbatim>\<open>allow\<close> nor a \<^verbatim>\<open>records\<close>
  property, so as a rule set it is the one with both absent.
\<close>

definition lookupRuleSet :: "(string \<times> ProtocolRuleSet) list option \<Rightarrow> string
     \<Rightarrow> ProtocolRuleSet option" where
  "lookupRuleSet recs k =
     (case recs of
        None \<Rightarrow> None
      | Some kvs \<Rightarrow>
          (case map_of kvs k of
             Some ruleSet \<Rightarrow> Some ruleSet
           | None \<Rightarrow>
               if k \<in> set objectPrototypeProperties
               then Some (ProtocolRuleSet None None)
               else None))"

fun traverseRuleSets :: "(string \<times> ProtocolRuleSet) list option \<Rightarrow> ProtocolRuleSet option
     \<Rightarrow> string list \<Rightarrow> error + ProtocolRuleSet option" where
  "traverseRuleSets recs current [] = Inr current"
| "traverseRuleSets recs current (currentRecordDefinitionId # rest) =
     (case lookupRuleSet recs currentRecordDefinitionId of
        None \<Rightarrow> Inl (DwnError ProtocolAuthorizationMissingRuleSet)
      | Some nextRuleSet \<Rightarrow> traverseRuleSets (records nextRuleSet) (Some nextRuleSet) rest)"

text \<open>The traversal starts at the protocol definition itself, which is not a rule set;
  since the split path is never empty the loop body runs at least once, and the value
  returned is always a rule set.\<close>

definition getRuleSet :: "IncomingMessage \<Rightarrow> ProtocolDefinition \<Rightarrow> RecordsWriteMessage list
     \<Rightarrow> error + ProtocolRuleSet" where
  "getRuleSet inboundMessage protocolDefinition ancestorMessageChain =
     (case (case inboundMessage of
              IncomingWrite w \<Rightarrow> Inr (protocolPath (descriptor (message w)))
            | IncomingRead r \<Rightarrow>
                (if ancestorMessageChain = [] then Inl TypeError
                 else Inr (protocolPath (descriptor
                        (ancestorMessageChain ! (length ancestorMessageChain - 1)))))) of
        Inl e \<Rightarrow> Inl e
      | Inr None \<Rightarrow> Inl TypeError
      | Inr (Some path) \<Rightarrow>
          (case traverseRuleSets (pd_records protocolDefinition) None
                  (js_split CHR ''/'' path) of
             Inl e \<Rightarrow> Inl e
           | Inr None \<Rightarrow> Inl TypeError
           | Inr (Some ruleSet) \<Rightarrow> Inr ruleSet))"

subsection \<open>verifyProtocolPath\<close>

text \<open>The \<^verbatim>\<open>for (const ancestor of ancestorMessageChain)\<close> loop that appends each
  ancestor's record-definition id and a trailing slash to \<^verbatim>\<open>ancestorProtocolPath\<close>.\<close>

fun ancestorProtocolPath :: "string \<Rightarrow> RecordsWriteMessage list \<Rightarrow> error + string" where
  "ancestorProtocolPath acc [] = Inr acc"
| "ancestorProtocolPath acc (ancestor # rest) =
     (case getRecordDefinitionId (protocolPath (descriptor ancestor)) of
        Inl e \<Rightarrow> Inl e
      | Inr ancestorRecordDefinitionId \<Rightarrow>
          ancestorProtocolPath (acc @ ancestorRecordDefinitionId @ ''/'') rest)"

definition verifyProtocolPath :: "IncomingMessage \<Rightarrow> RecordsWriteMessage list
     \<Rightarrow> ProtocolRecordDefinition list \<Rightarrow> error + unit" where
  "verifyProtocolPath inboundMessage ancestorMessageChain recordDefs =
     (case inboundMessage of
        IncomingRead r \<Rightarrow> Inr ()
      | IncomingWrite w \<Rightarrow>
          (let recordDefinitionIds = map rd_id recordDefs;
               declaredProtocolPath = protocolPath (descriptor (message w))
           in case getRecordDefinitionId declaredProtocolPath of
                Inl e \<Rightarrow> Inl e
              | Inr declaredRecordDefinitionId \<Rightarrow>
                  if declaredRecordDefinitionId \<notin> set recordDefinitionIds
                  then Inl (DwnError ProtocolAuthorizationInvalidRecordDefinition)
                  else (case ancestorProtocolPath [] ancestorMessageChain of
                          Inl e \<Rightarrow> Inl e
                        | Inr ancestorPath \<Rightarrow>
                            (let actualProtocolPath = ancestorPath @ declaredRecordDefinitionId
                             in if declaredProtocolPath \<noteq> Some actualProtocolPath
                                then Inl (DwnError ProtocolAuthorizationIncorrectProtocolPath)
                                else Inr ()))))"

subsection \<open>verifyRecordDefinition\<close>

text \<open>Modelled from the spec: \<^verbatim>\<open>Protocols.getRecordDefinition\<close> is imported from
  \<^verbatim>\<open>utils/protocols.js\<close>, which is not among the sources. Following "the record
  definition" of step 5 of the authorizer, it returns the record definition of the protocol
  with the given id, \<^verbatim>\<open>undefined\<close> if there is none (reading \<^verbatim>\<open>.schema\<close> of that
  raises).\<close>

definition getRecordDefinition :: "ProtocolDefinition \<Rightarrow> string
     \<Rightarrow> ProtocolRecordDefinition option" where
  "getRecordDefinition protocolDefinition recordDefinitionId =
     find (\<lambda>d. rd_id d = recordDefinitionId) (recordDefinitions protocolDefinition)"

definition verifyRecordDefinition :: "IncomingMessage \<Rightarrow> ProtocolDefinition
     \<Rightarrow> error + unit" where
  "verifyRecordDefinition inboundMessage protocolDefinition =
     (case inboundMessage of
        IncomingRead r \<Rightarrow> Inr ()
      | IncomingWrite w \<Rightarrow>
          (case getRecordDefinitionId (protocolPath (descriptor (message w))) of
             Inl e \<Rightarrow> Inl e
           | Inr recordDefinitionId \<Rightarrow>
               (case getRecordDefinition protocolDefinition recordDefinitionId of
                  None \<Rightarrow> Inl TypeError
                | Some recordDefinition \<Rightarrow>
                    if rd_schema recordDefinition \<noteq> None
                       \<and> rd_schema recordDefinition \<noteq> schema (descriptor (message w))
                    then Inl (DwnError ProtocolAuthorizationInvalidSchema)
                    else (case rd_dataFormats recordDefinition of
                            None \<Rightarrow> Inr ()
                          | Some formats \<Rightarrow>
                              if dataFormat (descriptor (message w)) \<notin> set formats
                              then Inl (DwnError ProtocolAuthorizationIncorrectDataFormat)
                              else Inr ()))))"

subsection \<open>getMessage\<close>

text \<open>
  The \<^verbatim>\<open>while (true)\<close> loop of \<^verbatim>\<open>getMessage\<close>, with its index. Reading
  \<^verbatim>\<open>ancestorMessageChain[i]\<close> past the end gives \<^verbatim>\<open>undefined\<close>, whose descriptor cannot
  be read; \<^verbatim>\<open>expectedAncestors[i]\<close> past the end is \<^verbatim>\<open>undefined\<close>, which no actual id
  equals. Every round throws, returns or increments \<open>i\<close>.
\<close>

function getMessage_loop :: "string list \<Rightarrow> RecordsWriteMessage list \<Rightarrow> nat
     \<Rightarrow> error + RecordsWriteMessage" where
  "getMessage_loop expectedAncestors ancestorMessageChain i =
     (if length ancestorMessageChain \<le> i then Inl TypeError
      else (case getRecordDefinitionId
                   (protocolPath (descriptor (ancestorMessageChain ! i))) of
              Inl e \<Rightarrow> Inl e
            | Inr actualDefinitionId \<Rightarrow>
                if (if i < length expectedAncestors then Some (expectedAncestors ! i)
                    else None) \<noteq> Some actualDefinitionId
                then Inl (Error MismatchingRecordSchema)
                else if i + 1 = length expectedAncestors
                     then Inr (ancestorMessageChain ! i)
                     else getMessage_loop expectedAncestors ancestorMessageChain (i + 1)))"
  by pat_completeness auto
termination
  by (relation "measure (\<lambda>(expectedAncestors, ancestorMessageChain, i).
                  length ancestorMessageChain - i)") auto

declare getMessage_loop.simps [simp del]

definition getMessage :: "RecordsWriteMessage list \<Rightarrow> string option
     \<Rightarrow> error + RecordsWriteMessage option" where
  "getMessage ancestorMessageChain path =
     (case path of
        None \<Rightarrow> Inl TypeError
      | Some p \<Rightarrow>
          (let expectedAncestors = js_split CHR ''/'' p
           in if length expectedAncestors > length ancestorMessageChain then Inr None
              else map_sum id Some (getMessage_loop expectedAncestors ancestorMessageChain 0)))"

subsection \<open>verifyAllowedActions\<close>

definition methodToAllowedActionMap :: "DwnMethodName \<Rightarrow> ProtocolAction option" where
  "methodToAllowedActionMap m =
     (case m of Write \<Rightarrow> Some ActionWrite | Read \<Rightarrow> Some ActionRead | _ \<Rightarrow> None)"

text \<open>Modelled from the spec: \<^verbatim>\<open>Message.getAuthor\<close> is imported from
  \<^verbatim>\<open>core/message.js\<close>, which is not among the sources. The author of a message is
  the DID that signed its authorization block; the function reads it from the message it is
  given, so applied to \<^verbatim>\<open>undefined\<close> it raises a TypeError.\<close>

definition getAuthor :: "RecordsWriteMessage option \<Rightarrow> error + string option" where
  "getAuthor m = (case m of None \<Rightarrow> Inl TypeError | Some msg \<Rightarrow> Inr (signer msg))"

text \<open>The \<^verbatim>\<open>for (const allowRule of allowRules)\<close> loop with its \<^verbatim>\<open>switch\<close>; the set
  \<^verbatim>\<open>allowedActions\<close> is the accumulator.\<close>

fun collectAllowedActions :: "string option \<Rightarrow> RecordsWriteMessage list
     \<Rightarrow> ProtocolAction set \<Rightarrow> ProtocolAllowRule list \<Rightarrow> error + ProtocolAction set" where
  "collectAllowedActions requesterDid chain allowedActions [] = Inr allowedActions"
| "collectAllowedActions requesterDid chain allowedActions (allowRule # rest) =
     (case actor allowRule of
        Anyone \<Rightarrow>
          collectAllowedActions requesterDid chain
            (allowedActions \<union> set (actions allowRule)) rest
      | Author \<Rightarrow>
          (case getMessage chain (rule_protocolPath allowRule) of
             Inl e \<Rightarrow> Inl e
           | Inr None \<Rightarrow> collectAllowedActions requesterDid chain allowedActions rest
           | Inr (Some messageForAuthorCheck) \<Rightarrow>
               (case getAuthor (Some messageForAuthorCheck) of
                  Inl e \<Rightarrow> Inl e
                | Inr expectedRequesterDid \<Rightarrow>
                    if requesterDid = expectedRequesterDid
                    then collectAllowedActions requesterDid chain
                           (allowedActions \<union> set (actions allowRule)) rest
                    else collectAllowedActions requesterDid chain allowedActions rest))
      | Recipient \<Rightarrow>
          (case getMessage chain (rule_protocolPath allowRule) of
             Inl e \<Rightarrow> Inl e
           | Inr None \<Rightarrow> collectAllowedActions requesterDid chain allowedActions rest
           | Inr (Some messageForRecipientCheck) \<Rightarrow>
               if requesterDid = recipient (descriptor messageForRecipientCheck)
               then collectAllowedActions requesterDid chain
                      (allowedActions \<union> set (actions allowRule)) rest
               else collectAllowedActions requesterDid chain allowedActions rest))"

definition verifyAllowedActions :: "string \<Rightarrow> string option \<Rightarrow> DwnMethodName
     \<Rightarrow> ProtocolRuleSet \<Rightarrow> RecordsWriteMessage list \<Rightarrow> error + unit" where
  "verifyAllowedActions tenant requesterDid incomingMessageMethod inboundMessageRuleSet
       ancestorMessageChain =
     (case allow inboundMessageRuleSet of
        None \<Rightarrow>
          if requesterDid = Some tenant then Inr () else Inl (Error NoAllowRuleDefined)
      | Some allowRules \<Rightarrow>
          (case collectAllowedActions requesterDid ancestorMessageChain {} allowRules of
             Inl e \<Rightarrow> Inl e
           | Inr allowedActions \<Rightarrow>
               (case methodToAllowedActionMap incomingMessageMethod of
                  None \<Rightarrow> Inl (Error ActionNotInAllowedActions)
                | Some inboundMessageAction \<Rightarrow>
                    if inboundMessageAction \<notin> allowedActions
                    then Inl (Error ActionNotInAllowedActions)
                    else Inr ())))"

subsection \<open>verifyActionCondition\<close>

definition entryIdFilter :: "string \<Rightarrow> Filter" where
  "entryIdFilter rid = emptyFilter \<lparr> f_entryId := Some rid \<rparr>"

text \<open>\<^verbatim>\<open>result[0]\<close>: the first element, \<^verbatim>\<open>undefined\<close> for an empty array.\<close>

definition firstElement :: "'a list \<Rightarrow> 'a option" where
  "firstElement xs = (case xs of [] \<Rightarrow> None | x # _ \<Rightarrow> Some x)"

definition verifyActionCondition :: "string \<Rightarrow> IncomingMessage \<Rightarrow> MessageStore
     \<Rightarrow> error + unit" where
  "verifyActionCondition tenant incomingMessage messageStore =
     (case incomingMessage of
        IncomingRead r \<Rightarrow> Inr ()
      | IncomingWrite recordsWrite \<Rightarrow>
          if \<not> isInitialWrite recordsWrite then
            (let result = queryRecordsWrite messageStore tenant
                            (entryIdFilter (recordId (message recordsWrite)));
                 initialWrite = firstElement result
             in case getAuthor initialWrite of
                  Inl e \<Rightarrow> Inl e
                | Inr authorOfInitialWrite \<Rightarrow>
                    if author recordsWrite \<noteq> authorOfInitialWrite
                    then Inl (Error AuthorMustMatchInitialWrite)
                    else Inr ())
          else Inr ())"

subsection \<open>authorize\<close>

definition andThen :: "error + 'a \<Rightarrow> ('a \<Rightarrow> error + 'b) \<Rightarrow> error + 'b" where
  "andThen r f = (case r of Inl e \<Rightarrow> Inl e | Inr v \<Rightarrow> f v)"

definition authorize ::
  "(RecordsWriteMessage list \<Rightarrow> error + RecordsWriteMessage) \<Rightarrow> string \<Rightarrow> IncomingMessage
     \<Rightarrow> string option \<Rightarrow> MessageStore \<Rightarrow> (error + unit) option" where
  "authorize newestWrite tenant incomingMessage requesterDid messageStore =
     map_option
       (\<lambda>chainResult.
          andThen chainResult (\<lambda>ancestorMessageChain.
          andThen (fetchProtocolDefinition tenant incomingMessage ancestorMessageChain
                     messageStore) (\<lambda>protocolDefinition.
          andThen (verifyProtocolPath incomingMessage ancestorMessageChain
                     (recordDefinitions protocolDefinition)) (\<lambda>_.
          andThen (getRuleSet incomingMessage protocolDefinition ancestorMessageChain)
                     (\<lambda>inboundMessageRuleSet.
          andThen (verifyRecordDefinition incomingMessage protocolDefinition) (\<lambda>_.
          andThen (verifyAllowedActions tenant requesterDid (incomingMethod incomingMessage)
                     inboundMessageRuleSet ancestorMessageChain) (\<lambda>_.
          verifyActionCondition tenant incomingMessage messageStore)))))))
       (constructAncestorMessageChain newestWrite tenant incomingMessage messageStore)"

subsection \<open>The protocol path as the specification words it\<close>

text \<open>The terminal segment of a \<open>/\<close>-delimited path, and the path the specification
  requires of a write: the terminal segments of the ancestors, root first, and then the
  declared terminal segment, joined by \<open>/\<close>.\<close>

definition terminalSegment :: "string \<Rightarrow> string" where
  "terminalSegment p = last (js_split CHR ''/'' p)"

definition ancestorTerminalSegment :: "RecordsWriteMessage \<Rightarrow> string" where
  "ancestorTerminalSegment a =
     (case protocolPath (descriptor a) of None \<Rightarrow> [] | Some p \<Rightarrow> terminalSegment p)"

definition specProtocolPath :: "RecordsWriteMessage list \<Rightarrow> string \<Rightarrow> string" where
  "specProtocolPath chain declared =
     js_join ''/'' (map ancestorTerminalSegment chain @ [terminalSegment declared])"

subsection \<open>The protocol URI of a fetch\<close>


section \<open>Permissions revocation\<close>

text \<open>
  The revoke handler itself is not among the sources; only its functional tests
  (\<^verbatim>\<open>tests/handlers/permissions-revoke.spec.ts\<close>) are. The definitions of this section
  are therefore modelled from the specification (section 4.3, the accept rules, and
  section 6, the store interfaces). They describe one tenant's namespace of the stores and
  the processing of a revoke that has been parsed and authenticated.
\<close>

text \<open>Modelled from the spec: a \<^verbatim>\<open>PermissionsGrant\<close> message (section 3). Its identity is
  its message CID, a content hash, carried here as a field; timestamps and CIDs are
  strings, compared lexicographically.\<close>

record PermissionsGrantMessage =
  grant_cid :: string
  grant_messageTimestamp :: string
  grantedBy :: string
  grantedTo :: string
  grantedFor :: string

text \<open>Modelled from the spec: a \<^verbatim>\<open>PermissionsRevoke\<close> message (section 3), citing the
  CID of the grant it revokes.\<close>

record PermissionsRevokeMessage =
  revoke_cid :: string
  revoke_messageTimestamp :: string
  revoke_author :: string
  permissionsGrantId :: string

text \<open>Modelled from the spec: the stores of one tenant (section 6). The Message Store is
  kept by message kind, which is what a query by interface and method selects; the Event
  Log is a sequence of message CIDs.\<close>

record DwnState =
  storedGrants :: "PermissionsGrantMessage list"
  storedRevokes :: "PermissionsRevokeMessage list"
  eventLog :: "string list"

text \<open>Modelled from the spec: Message Store \<^verbatim>\<open>put\<close>, "idempotent by CID".\<close>

definition messageStore_put :: "PermissionsRevokeMessage list \<Rightarrow> PermissionsRevokeMessage
     \<Rightarrow> PermissionsRevokeMessage list" where
  "messageStore_put ms m =
     (if revoke_cid m \<in> revoke_cid ` set ms then ms else ms @ [m])"

text \<open>Modelled from the spec: Message Store \<^verbatim>\<open>delete(tenant, cid)\<close>, idempotent.\<close>

definition messageStore_delete :: "PermissionsRevokeMessage list \<Rightarrow> string
     \<Rightarrow> PermissionsRevokeMessage list" where
  "messageStore_delete ms c = filter (\<lambda>m. revoke_cid m \<noteq> c) ms"

text \<open>Modelled from the spec: Event Log \<^verbatim>\<open>append(tenant, cid)\<close>.\<close>

definition eventLog_append :: "string list \<Rightarrow> string \<Rightarrow> string list" where
  "eventLog_append log c = log @ [c]"

text \<open>Modelled from the spec: Event Log \<^verbatim>\<open>deleteEventsByCid(tenant, cid[])\<close>.\<close>

definition eventLog_deleteEventsByCid :: "string list \<Rightarrow> string list \<Rightarrow> string list" where
  "eventLog_deleteEventsByCid log cids = filter (\<lambda>c. c \<notin> set cids) log"

text \<open>Modelled from the spec: the Message Store query for the stored revokes of a
  grant (index \<^verbatim>\<open>permissionsGrantId\<close>).\<close>

definition queryRevokes :: "PermissionsRevokeMessage list \<Rightarrow> string
     \<Rightarrow> PermissionsRevokeMessage list" where
  "queryRevokes ms g = filter (\<lambda>m. permissionsGrantId m = g) ms"

text \<open>Modelled from the spec: the lookup of the \<^verbatim>\<open>PermissionsGrant\<close> "whose CID equals
  \<^verbatim>\<open>R.permissionsGrantId\<close>", among the stored grants, as row 1 words it.\<close>

definition getGrant :: "PermissionsGrantMessage list \<Rightarrow> string
     \<Rightarrow> PermissionsGrantMessage option" where
  "getGrant gs g = find (\<lambda>m. grant_cid m = g) gs"

text \<open>Modelled from the spec: the lexicographic pair order on
  \<open>(messageTimestamp, message CID)\<close>, strict.\<close>

definition revokePrecedes :: "PermissionsRevokeMessage \<Rightarrow> PermissionsRevokeMessage \<Rightarrow> bool" where
  "revokePrecedes a b =
     (revoke_messageTimestamp a < revoke_messageTimestamp b
      \<or> (revoke_messageTimestamp a = revoke_messageTimestamp b \<and> revoke_cid a < revoke_cid b))"

text \<open>Modelled from the spec: two revokes with the same timestamp and the same CID.\<close>

definition samePair :: "PermissionsRevokeMessage \<Rightarrow> PermissionsRevokeMessage \<Rightarrow> bool" where
  "samePair a b =
     (revoke_messageTimestamp a = revoke_messageTimestamp b \<and> revoke_cid a = revoke_cid b)"

text \<open>Modelled from the spec: the error codes of the accept rules and the reply of
  \<^verbatim>\<open>processMessage\<close>, a status code with an optional error code.\<close>

datatype PermissionsRevokeErrorCode =
  GrantNotFound | RevokeBeforeGrant | PermissionsRevokeUnauthorizedRevoke | Superseded

datatype Reply = Reply (code: nat) (detail: "PermissionsRevokeErrorCode option")

text \<open>
  Modelled from the spec: \<^verbatim>\<open>PermissionsRevokeHandler.handle\<close>, the accept rules of
  section 4.3. The table does not say which row decides when the conditions of several
  hold, so the order is taken from the rest of the specification. The grant is looked up
  first, since every other row speaks of it. A revoke whose author is not the grant's
  \<open>grantedFor\<close> is an authorization failure (section 7), and in the pipeline of section 2
  authorization comes before the handler's state-transition logic: the author row is
  tested next, before the timestamp row. Then the stored revokes of the grant are
  consulted: a stored revoke that is not later than \<open>R\<close> in the pair order makes \<open>R\<close> the
  convergence loser, 409. That is row 4 for a stored revoke that precedes \<open>R\<close>, and
  scenario S5 ("Duplicate/later revoke") for a stored revoke with \<open>R\<close>'s own timestamp and
  CID, a resubmission, which the table sets aside as not occurring. Otherwise \<open>R\<close> is
  accepted: it is put in the Message Store and its CID appended to the Event Log, and
  every stored revoke of the grant that comes later in the pair order is deleted and
  its CID purged from the Event Log.
\<close>

definition PermissionsRevokeHandler_handle :: "DwnState \<Rightarrow> PermissionsRevokeMessage
     \<Rightarrow> Reply \<times> DwnState" where
  "PermissionsRevokeHandler_handle s R =
     (case getGrant (storedGrants s) (permissionsGrantId R) of
        None \<Rightarrow> (Reply 400 (Some GrantNotFound), s)
      | Some G \<Rightarrow>
          if revoke_author R \<noteq> grantedFor G
          then (Reply 401 (Some PermissionsRevokeUnauthorizedRevoke), s)
          else if revoke_messageTimestamp R < grant_messageTimestamp G
          then (Reply 400 (Some RevokeBeforeGrant), s)
          else (let existing = queryRevokes (storedRevokes s) (grant_cid G) in
                if list_ex (\<lambda>R'. revokePrecedes R' R \<or> samePair R' R) existing
                then (Reply 409 (Some Superseded), s)
                else (let later = filter (\<lambda>R'. revokePrecedes R R') existing in
                      (Reply 202 None,
                       s \<lparr> storedRevokes :=
                             fold (\<lambda>R' ms. messageStore_delete ms (revoke_cid R')) later
                               (messageStore_put (storedRevokes s) R),
                           eventLog :=
                             eventLog_deleteEventsByCid
                               (eventLog_append (eventLog s) (revoke_cid R))
                               (map revoke_cid later) \<rparr>))))"

text \<open>Modelled from the spec: processing a sequence of revokes one after the other
  (section 5: processing is serialised per tenant).\<close>

definition processAll :: "DwnState \<Rightarrow> PermissionsRevokeMessage list \<Rightarrow> DwnState" where
  "processAll s Rs = fold (\<lambda>R s'. snd (PermissionsRevokeHandler_handle s' R)) Rs s"

text \<open>Modelled from the spec: the author and timestamp preconditions of a revoke \<open>R\<close>
  for the grant \<open>G\<close> (the grant, author and timestamp rows of the accept rules do not
  reject it).\<close>

definition validRevoke :: "PermissionsGrantMessage \<Rightarrow> PermissionsRevokeMessage \<Rightarrow> bool" where
  "validRevoke G R =
     (permissionsGrantId R = grant_cid G \<and> revoke_author R = grantedFor G
      \<and> \<not> revoke_messageTimestamp R < grant_messageTimestamp G)"

text \<open>Modelled from the spec: \<open>argmin (timestamp, cid)\<close> over a list of revokes.\<close>

fun earliestRevoke :: "PermissionsRevokeMessage list \<Rightarrow> PermissionsRevokeMessage option" where
  "earliestRevoke [] = None"
| "earliestRevoke (R # Rs) =
     Some (fold (\<lambda>x m. if revokePrecedes x m then x else m) Rs R)"

section \<open>Concrete scenarios\<close>

subsection \<open>A protocol with a root record type and a child record type\<close>

definition ex_anyoneWrite :: ProtocolAllowRule where
  "ex_anyoneWrite = \<lparr> actor = Anyone, actions = [ActionWrite], rule_protocolPath = None \<rparr>"

definition ex_authorOfBaz :: ProtocolAllowRule where
  "ex_authorOfBaz =
     \<lparr> actor = Author, actions = [ActionWrite], rule_protocolPath = Some ''baz'' \<rparr>"

definition ex_barRuleSet :: ProtocolRuleSet where
  "ex_barRuleSet = ProtocolRuleSet (Some [ex_anyoneWrite, ex_authorOfBaz]) None"

definition ex_fooRuleSet :: ProtocolRuleSet where
  "ex_fooRuleSet = ProtocolRuleSet (Some [ex_anyoneWrite]) (Some [(''bar'', ex_barRuleSet)])"

definition ex_protocolDefinition :: ProtocolDefinition where
  "ex_protocolDefinition =
     \<lparr> recordDefinitions =
         [\<lparr> rd_id = ''foo'', rd_schema = None, rd_dataFormats = None \<rparr>,
          \<lparr> rd_id = ''bar'', rd_schema = None, rd_dataFormats = None \<rparr>],
       pd_records = Some [(''foo'', ex_fooRuleSet)] \<rparr>"

definition ex_protocolsConfigure :: ProtocolsConfigureMessage where
  "ex_protocolsConfigure =
     \<lparr> cfg_protocol = ''proto'', cfg_messageTimestamp = ''2023-05-16T10:00:00.000000Z'',
       cfg_definition = ex_protocolDefinition \<rparr>"

text \<open>Alice's stored root record \<open>rec-foo\<close>, an initial write.\<close>

definition ex_fooWrite :: RecordsWriteMessage where
  "ex_fooWrite =
     \<lparr> recordId = ''rec-foo'', contextId = Some ''rec-foo'',
       descriptor = \<lparr> protocol = Some ''proto'', protocolPath = Some ''foo'',
                      parentId = None, recipient = None, schema = None,
                      dataFormat = ''application/json'',
                      messageTimestamp = ''2023-05-16T10:00:01.000000Z'' \<rparr>,
       signer = Some ''did:alice'' \<rparr>"

text \<open>Bob's stored \<open>bar\<close> record \<open>rec-bar1\<close> under \<open>rec-foo\<close>, an initial write.\<close>

definition ex_barStored :: RecordsWriteMessage where
  "ex_barStored =
     \<lparr> recordId = ''rec-bar1'', contextId = Some ''rec-foo'',
       descriptor = \<lparr> protocol = Some ''proto'', protocolPath = Some ''foo/bar'',
                      parentId = Some ''rec-foo'', recipient = None, schema = None,
                      dataFormat = ''application/json'',
                      messageTimestamp = ''2023-05-16T10:00:01.500000Z'' \<rparr>,
       signer = Some ''did:bob'' \<rparr>"

text \<open>Whether a stored initial write matches a filter: every index the filter mentions
  has the value the message has (the \<open>entryId\<close> of an initial write is its \<open>recordId\<close>).\<close>

definition ex_matches :: "Filter \<Rightarrow> RecordsWriteMessage \<Rightarrow> bool" where
  "ex_matches f m =
     ((f_interface f = None \<or> f_interface f = Some Records)
      \<and> (f_method f = None \<or> f_method f = Some Write)
      \<and> (f_protocol f = None \<or> f_protocol f = protocol (descriptor m))
      \<and> (f_contextId f = None \<or> f_contextId f = contextId m)
      \<and> (f_recordId f = None \<or> f_recordId f = Some (recordId m))
      \<and> (f_entryId f = None \<or> f_entryId f = Some (recordId m)))"

text \<open>A store holding the protocol configuration, Alice's root record and Bob's record
  under it; a query returns the stored messages that match the filter.\<close>

definition ex_messageStore :: MessageStore where
  "ex_messageStore =
     \<lparr> queryRecordsWrite =
         (\<lambda>tenant f. filter (ex_matches f) [ex_fooWrite, ex_barStored]),
       queryProtocolsConfigure =
         (\<lambda>tenant f. if f_protocol f = Some ''proto'' then [ex_protocolsConfigure]
                      else []) \<rparr>"


text \<open>Bob's incoming write of a record under \<open>rec-foo\<close> that declares the path \<open>bar\<close>
  instead of \<open>foo/bar\<close>.\<close>

definition ex_wrongPathWrite :: RecordsWrite where
  "ex_wrongPathWrite =
     \<lparr> message =
         \<lparr> recordId = ''rec-bar2'', contextId = Some ''rec-foo'',
           descriptor = \<lparr> protocol = Some ''proto'', protocolPath = Some ''bar'',
                          parentId = Some ''rec-foo'', recipient = None, schema = None,
                          dataFormat = ''application/json'',
                          messageTimestamp = ''2023-05-16T10:00:05.000000Z'' \<rparr>,
           signer = Some ''did:bob'' \<rparr>,
       author = Some ''did:bob'', isInitialWrite = True \<rparr>"

text \<open>Bob's incoming initial write of a \<open>bar\<close> record under \<open>rec-foo\<close>.\<close>

definition ex_barWrite :: RecordsWrite where
  "ex_barWrite =
     \<lparr> message =
         \<lparr> recordId = ''rec-bar'', contextId = Some ''rec-foo'',
           descriptor = \<lparr> protocol = Some ''proto'', protocolPath = Some ''foo/bar'',
                          parentId = Some ''rec-foo'', recipient = None, schema = None,
                          dataFormat = ''application/json'',
                          messageTimestamp = ''2023-05-16T10:00:02.000000Z'' \<rparr>,
           signer = Some ''did:bob'' \<rparr>,
       author = Some ''did:bob'', isInitialWrite = True \<rparr>"

text \<open>An incoming update of \<open>rec-foo\<close>, by the given author.\<close>

definition ex_fooUpdate :: "string \<Rightarrow> RecordsWrite" where
  "ex_fooUpdate did =
     \<lparr> message =
         \<lparr> recordId = ''rec-foo'', contextId = Some ''rec-foo'',
           descriptor = \<lparr> protocol = Some ''proto'', protocolPath = Some ''foo'',
                          parentId = None, recipient = None, schema = None,
                          dataFormat = ''application/json'',
                          messageTimestamp = ''2023-05-16T10:00:03.000000Z'' \<rparr>,
           signer = Some did \<rparr>,
       author = Some did, isInitialWrite = False \<rparr>"

text \<open>An incoming update of a record \<open>rec-gone\<close> whose initial write the store does not
  hold.\<close>

definition ex_orphanUpdate :: RecordsWrite where
  "ex_orphanUpdate =
     \<lparr> message =
         \<lparr> recordId = ''rec-gone'', contextId = Some ''rec-gone'',
           descriptor = \<lparr> protocol = Some ''proto'', protocolPath = Some ''foo'',
                          parentId = None, recipient = None, schema = None,
                          dataFormat = ''application/json'',
                          messageTimestamp = ''2023-05-16T10:00:04.000000Z'' \<rparr>,
           signer = Some ''did:bob'' \<rparr>,
       author = Some ''did:bob'', isInitialWrite = False \<rparr>"

text \<open>The parameter standing for \<^verbatim>\<open>getNewestMessage\<close> followed by \<^verbatim>\<open>parse\<close>, on
  the scenarios: the first message of the query result.\<close>

definition ex_newestWrite :: "RecordsWriteMessage list \<Rightarrow> error + RecordsWriteMessage" where
  "ex_newestWrite ms = (case ms of [] \<Rightarrow> Inl TypeError | m # _ \<Rightarrow> Inr m)"

subsection \<open>A store with two configurations of one protocol\<close>





subsection \<open>Alice's grant and revokes of it\<close>

definition ex_grant :: PermissionsGrantMessage where
  "ex_grant =
     \<lparr> grant_cid = ''bafygrant'', grant_messageTimestamp = ''2024-01-23T10:00:00.000000Z'',
       grantedBy = ''did:alice'', grantedTo = ''did:bob'', grantedFor = ''did:alice'' \<rparr>"

definition ex_revoke :: "string \<Rightarrow> string \<Rightarrow> string \<Rightarrow> PermissionsRevokeMessage" where
  "ex_revoke cid ts did =
     \<lparr> revoke_cid = cid, revoke_messageTimestamp = ts, revoke_author = did,
       permissionsGrantId = ''bafygrant'' \<rparr>"

definition ex_revokeEarly :: PermissionsRevokeMessage where
  "ex_revokeEarly = ex_revoke ''bafyrevoke1'' ''2024-01-23T10:00:01.000000Z'' ''did:alice''"

definition ex_revokeLate :: PermissionsRevokeMessage where
  "ex_revokeLate = ex_revoke ''bafyrevoke2'' ''2024-01-23T10:00:02.000000Z'' ''did:alice''"

definition ex_revokeTie :: PermissionsRevokeMessage where
  "ex_revokeTie = ex_revoke ''bafyrevoke3'' ''2024-01-23T10:00:01.000000Z'' ''did:alice''"

text \<open>Bob's revokes of Alice's grant: one dated after the grant, one dated before it.\<close>

definition ex_revokeByBob :: PermissionsRevokeMessage where
  "ex_revokeByBob = ex_revoke ''bafyrevoke4'' ''2024-01-23T10:00:01.500000Z'' ''did:bob''"

definition ex_revokeByBobBeforeGrant :: PermissionsRevokeMessage where
  "ex_revokeByBobBeforeGrant =
     ex_revoke ''bafyrevoke5'' ''2024-01-23T09:59:59.000000Z'' ''did:bob''"

text \<open>The stores after the grant has been accepted, and after one revoke has been
  accepted as well.\<close>

definition ex_granted :: DwnState where
  "ex_granted = \<lparr> storedGrants = [ex_grant], storedRevokes = [], eventLog = [''bafygrant''] \<rparr>"

definition ex_revokedBy :: "PermissionsRevokeMessage \<Rightarrow> DwnState" where
  "ex_revokedBy R =
     \<lparr> storedGrants = [ex_grant], storedRevokes = [R],
       eventLog = [''bafygrant'', revoke_cid R] \<rparr>"

section \<open>Properties of the protocol authorizer\<close>

subsection \<open>Auxiliary facts\<close>

lemma js_split_nonempty: "js_split sep s \<noteq> []"
  by (induction s) auto

lemma js_join_snoc: "js_join sep (xs @ [d]) = concat (map (\<lambda>x. x @ sep) xs) @ d"
  by (induction sep xs rule: js_join.induct) auto

lemma specProtocolPath_eq:
  "specProtocolPath chain declared =
     concat (map (\<lambda>a. ancestorTerminalSegment a @ ''/'') chain) @ terminalSegment declared"
  unfolding specProtocolPath_def js_join_snoc by (simp add: comp_def)

lemma ancestorProtocolPath_defined:
  "\<forall>a\<in>set chain. protocolPath (descriptor a) \<noteq> None \<Longrightarrow>
   ancestorProtocolPath acc chain =
     Inr (acc @ concat (map (\<lambda>a. ancestorTerminalSegment a @ ''/'') chain))"
  by (induction chain arbitrary: acc)
     (auto simp: getRecordDefinitionId_def ancestorTerminalSegment_def terminalSegment_def)

lemma walkAncestors_no_parent:
  "walkAncestors store tenant uri ctx None chain = Some (Inr chain)"
  by (subst walkAncestors.simps) simp

lemma walkAncestors_parent_missing:
  "queryRecordsWrite store tenant (parentFilter uri ctx pid) = [] \<Longrightarrow>
   walkAncestors store tenant uri ctx (Some pid) chain = Some (Inl (Error NoParentFound))"
  by (subst walkAncestors.simps) simp

lemma walkAncestors_parent_found:
  "queryRecordsWrite store tenant (parentFilter uri ctx pid) = parent # others \<Longrightarrow>
   walkAncestors store tenant uri ctx (Some pid) chain =
     walkAncestors store tenant uri ctx (parentId (descriptor parent)) (chain @ [parent])"
  by (subst walkAncestors.simps) simp





lemma authorize_steps:
  assumes "constructAncestorMessageChain nw tenant incoming store = Some (Inr chain)"
    and "fetchProtocolDefinition tenant incoming chain store = Inr pd"
    and "verifyProtocolPath incoming chain (recordDefinitions pd) = Inr ()"
    and "getRuleSet incoming pd chain = Inr rs"
    and "verifyRecordDefinition incoming pd = Inr ()"
  shows "authorize nw tenant incoming req store =
           Some (andThen (verifyAllowedActions tenant req (incomingMethod incoming) rs chain)
                   (\<lambda>_. verifyActionCondition tenant incoming store))"
  using assms by (simp add: authorize_def andThen_def)

lemma getMessage_loop_error:
  "getMessage_loop expected chain i = Inl e \<Longrightarrow>
     e = Error MismatchingRecordSchema \<or> e = TypeError"
proof (induction expected chain i rule: getMessage_loop.induct)
  case (1 expected chain i)
  then show ?case
    by (subst (asm) (2) getMessage_loop.simps)
       (auto simp: getRecordDefinitionId_def split: if_splits sum.splits option.splits)
qed

lemma getMessage_loop_mismatch:
  assumes "j < length expected"
    and "getRecordDefinitionId (protocolPath (descriptor (chain ! j))) \<noteq> Inr (expected ! j)"
    and "i \<le> j"
  shows "isl (getMessage_loop expected chain i)"
  using assms
proof (induction expected chain i rule: getMessage_loop.induct)
  case (1 expected chain i)
  show ?case
  proof (cases "i = j")
    case True
    with 1 show ?thesis
      by (subst getMessage_loop.simps) (auto split: sum.splits)
  next
    case False
    with 1 have "i + 1 \<le> j" "i + 1 \<noteq> length expected" "i < length expected" by auto
    with 1 show ?thesis
      by (subst getMessage_loop.simps) (auto split: sum.splits)
  qed
qed

lemma getMessage_error:
  "getMessage chain path = Inl e \<Longrightarrow> e = Error MismatchingRecordSchema \<or> e = TypeError"
  by (auto simp: getMessage_def Let_def map_sum_def split: option.splits if_splits sum.splits
           dest: getMessage_loop_error)

lemma getMessage_mismatch:
  assumes "length (js_split CHR ''/'' p) \<le> length chain"
    and "j < length (js_split CHR ''/'' p)"
    and "getRecordDefinitionId (protocolPath (descriptor (chain ! j)))
           \<noteq> Inr (js_split CHR ''/'' p ! j)"
  shows "isl (getMessage chain (Some p))"
  using assms getMessage_loop_mismatch[of j "js_split CHR ''/'' p" chain 0]
  by (auto simp: getMessage_def Let_def isl_def)

lemma collectAllowedActions_error:
  "collectAllowedActions req chain acc rules = Inl e \<Longrightarrow>
     e = Error MismatchingRecordSchema \<or> e = TypeError"
proof (induction rules arbitrary: acc)
  case Nil
  then show ?case by simp
next
  case (Cons r rules)
  then show ?case
    by (cases "actor r")
       (auto simp: getAuthor_def split: sum.splits option.splits if_splits
             dest: getMessage_error)
qed

lemma collectAllowedActions_throws:
  assumes "r \<in> set rules" and "actor r = Author \<or> actor r = Recipient"
    and "isl (getMessage chain (rule_protocolPath r))"
  shows "isl (collectAllowedActions req chain acc rules)"
  using assms
proof (induction rules arbitrary: acc)
  case Nil
  then show ?case by simp
next
  case (Cons a rules)
  show ?case
  proof (cases "a = r")
    case True
    with Cons.prems show ?thesis
      by (auto simp: isl_def split: sum.splits)
  next
    case False
    with Cons.prems have "r \<in> set rules" by simp
    from Cons.IH[OF this Cons.prems(2,3)] show ?thesis
      by (cases "actor a")
         (auto simp: getAuthor_def split: sum.splits option.splits)
  qed
qed

text \<open>The scenario store, evaluated.\<close>

lemmas ex_store_defs =
  ex_messageStore_def ex_matches_def ex_fooWrite_def ex_barStored_def parentFilter_def
  recordIdFilter_def entryIdFilter_def protocolsConfigureFilter_def emptyFilter_def


lemma ex_parent_of_bar:
  "queryRecordsWrite ex_messageStore ''did:alice''
     (parentFilter (Some ''proto'') (Some ''rec-foo'') ''rec-foo'') = [ex_fooWrite]"
  by (simp add: ex_store_defs)

lemma ex_walk_from_bar:
  "walkAncestors ex_messageStore ''did:alice'' (Some ''proto'') (Some ''rec-foo'')
     (Some ''rec-foo'') chain = Some (Inr (chain @ [ex_fooWrite]))"
proof -
  have "parentId (descriptor ex_fooWrite) = None" by (simp add: ex_fooWrite_def)
  then show ?thesis
    by (simp add: walkAncestors_parent_found[OF ex_parent_of_bar] walkAncestors_no_parent)
qed

lemma ex_chain_barWrite:
  "constructAncestorMessageChain ex_newestWrite ''did:alice'' (IncomingWrite ex_barWrite)
     ex_messageStore = Some (Inr [ex_fooWrite])"
  using ex_walk_from_bar[of "[]"]
  by (simp add: constructAncestorMessageChain_def ex_barWrite_def)

lemma ex_chain_wrongPathWrite:
  "constructAncestorMessageChain ex_newestWrite ''did:alice'' (IncomingWrite ex_wrongPathWrite)
     ex_messageStore = Some (Inr [ex_fooWrite])"
  using ex_walk_from_bar[of "[]"]
  by (simp add: constructAncestorMessageChain_def ex_wrongPathWrite_def)


lemma ex_fetch:
  "protocol (descriptor (message w)) = Some ''proto'' \<Longrightarrow>
   fetchProtocolDefinition ''did:alice'' (IncomingWrite w) chain ex_messageStore
     = Inr ex_protocolDefinition"
  by (simp add: fetchProtocolDefinition_def ex_messageStore_def protocolsConfigureFilter_def
        emptyFilter_def ex_protocolsConfigure_def)

lemma ex_path_barWrite:
  "verifyProtocolPath (IncomingWrite ex_barWrite) [ex_fooWrite]
     (recordDefinitions ex_protocolDefinition) = Inr ()"
  by (simp add: verifyProtocolPath_def ex_barWrite_def ex_fooWrite_def
        ex_protocolDefinition_def getRecordDefinitionId_def)

lemma ex_ruleSet_barWrite:
  "getRuleSet (IncomingWrite ex_barWrite) ex_protocolDefinition [ex_fooWrite] = Inr ex_barRuleSet"
  by (simp add: getRuleSet_def ex_barWrite_def ex_protocolDefinition_def lookupRuleSet_def
        ex_fooRuleSet_def)

lemma ex_recordDefinition_barWrite:
  "verifyRecordDefinition (IncomingWrite ex_barWrite) ex_protocolDefinition = Inr ()"
  by (simp add: verifyRecordDefinition_def ex_barWrite_def ex_protocolDefinition_def
        getRecordDefinitionId_def getRecordDefinition_def)

lemma ex_foo_steps:
  assumes "protocolPath (descriptor (message w)) = Some ''foo''"
    and "schema (descriptor (message w)) = None"
  shows "verifyProtocolPath (IncomingWrite w) [] (recordDefinitions ex_protocolDefinition) = Inr ()"
    and "getRuleSet (IncomingWrite w) ex_protocolDefinition [] = Inr ex_fooRuleSet"
    and "verifyRecordDefinition (IncomingWrite w) ex_protocolDefinition = Inr ()"
  using assms
  by (simp_all add: verifyProtocolPath_def getRuleSet_def verifyRecordDefinition_def
        ex_protocolDefinition_def getRecordDefinitionId_def getRecordDefinition_def
        lookupRuleSet_def)

text \<open>A path segment that names an inherited property finds it: a protocol that
  declares a record type \<open>constructor\<close> without a rule set for it still yields one, with
  no \<open>allow\<close> list.\<close>

lemma getRuleSet_inherited_property:
  "protocolPath (descriptor (message w)) = Some ''constructor'' \<Longrightarrow>
   getRuleSet (IncomingWrite w) ex_protocolDefinition [] = Inr (ProtocolRuleSet None None)"
  "protocolPath (descriptor (message w)) = Some ''baz'' \<Longrightarrow>
   getRuleSet (IncomingWrite w) ex_protocolDefinition []
     = Inl (DwnError ProtocolAuthorizationMissingRuleSet)"
  by (simp_all add: getRuleSet_def ex_protocolDefinition_def lookupRuleSet_def
        objectPrototypeProperties_def)

subsection \<open>Fetching the protocol definition\<close>




subsection \<open>Verifying the protocol path\<close>

text \<open>
  C6. For an incoming write that declares a \<open>protocolPath\<close>, over a chain of ancestors
  that each have one, path verification succeeds iff the declared path equals the
  ancestors' terminal segments and the declared terminal segment joined by \<open>/\<close>, and that
  terminal segment is the id of one of the protocol's record definitions; otherwise it
  fails, with InvalidRecordDefinition when the terminal segment is no record definition
  and with IncorrectProtocolPath when the path differs. The authorization of such a write,
  once its chain is built and its protocol definition fetched, fails with that same error
  when the path is wrong and goes on to the rule-set lookup exactly when it is right. A
  read passes without any check, in the helper and in the authorization.
\<close>

theorem verifyProtocolPath_iff:
  assumes "protocolPath (descriptor (message w)) = Some declared"
    and "\<forall>a\<in>set chain. protocolPath (descriptor a) \<noteq> None"
  shows "((verifyProtocolPath (IncomingWrite w) chain defs = Inr ()) =
           (declared = specProtocolPath chain declared
            \<and> terminalSegment declared \<in> rd_id ` set defs))
       \<and> ((verifyProtocolPath (IncomingWrite w) chain defs
              = Inl (DwnError ProtocolAuthorizationInvalidRecordDefinition)) =
           (terminalSegment declared \<notin> rd_id ` set defs))
       \<and> ((verifyProtocolPath (IncomingWrite w) chain defs
              = Inl (DwnError ProtocolAuthorizationIncorrectProtocolPath)) =
           (terminalSegment declared \<in> rd_id ` set defs
            \<and> declared \<noteq> specProtocolPath chain declared))
       \<and> verifyProtocolPath (IncomingRead r) chain defs = Inr ()
       \<and> (constructAncestorMessageChain nw tenant (IncomingWrite w) store = Some (Inr chain) \<longrightarrow>
          fetchProtocolDefinition tenant (IncomingWrite w) chain store = Inr pd \<longrightarrow>
            authorize nw tenant (IncomingWrite w) req store =
              Some (if terminalSegment declared \<notin> rd_id ` set (recordDefinitions pd)
                    then Inl (DwnError ProtocolAuthorizationInvalidRecordDefinition)
                    else if declared \<noteq> specProtocolPath chain declared
                    then Inl (DwnError ProtocolAuthorizationIncorrectProtocolPath)
                    else andThen (getRuleSet (IncomingWrite w) pd chain) (\<lambda>ruleSet.
                         andThen (verifyRecordDefinition (IncomingWrite w) pd) (\<lambda>_.
                         andThen (verifyAllowedActions tenant req Write ruleSet chain) (\<lambda>_.
                         verifyActionCondition tenant (IncomingWrite w) store)))))
       \<and> (constructAncestorMessageChain nw tenant (IncomingRead r) store
            = Some (Inr readChain) \<longrightarrow>
          fetchProtocolDefinition tenant (IncomingRead r) readChain store = Inr pd \<longrightarrow>
            authorize nw tenant (IncomingRead r) req store =
              Some (andThen (getRuleSet (IncomingRead r) pd readChain) (\<lambda>ruleSet.
                    andThen (verifyRecordDefinition (IncomingRead r) pd) (\<lambda>_.
                    andThen (verifyAllowedActions tenant req Read ruleSet readChain) (\<lambda>_.
                    verifyActionCondition tenant (IncomingRead r) store)))))"
proof -
  have v: "verifyProtocolPath (IncomingWrite w) chain ds =
             (if terminalSegment declared \<notin> rd_id ` set ds
              then Inl (DwnError ProtocolAuthorizationInvalidRecordDefinition)
              else if declared \<noteq> specProtocolPath chain declared
              then Inl (DwnError ProtocolAuthorizationIncorrectProtocolPath)
              else Inr ())" for ds
    using assms
    by (simp add: verifyProtocolPath_def getRecordDefinitionId_def
          ancestorProtocolPath_defined specProtocolPath_eq terminalSegment_def Let_def)
  have rd: "verifyProtocolPath (IncomingRead r) c ds = Inr ()" for c ds
    by (simp add: verifyProtocolPath_def)
  show ?thesis
  proof (intro conjI impI)
    show "(verifyProtocolPath (IncomingWrite w) chain defs = Inr ()) =
           (declared = specProtocolPath chain declared
            \<and> terminalSegment declared \<in> rd_id ` set defs)"
      by (auto simp: v)
    show "(verifyProtocolPath (IncomingWrite w) chain defs
              = Inl (DwnError ProtocolAuthorizationInvalidRecordDefinition)) =
           (terminalSegment declared \<notin> rd_id ` set defs)"
      by (auto simp: v)
    show "(verifyProtocolPath (IncomingWrite w) chain defs
              = Inl (DwnError ProtocolAuthorizationIncorrectProtocolPath)) =
           (terminalSegment declared \<in> rd_id ` set defs
            \<and> declared \<noteq> specProtocolPath chain declared)"
      by (auto simp: v)
    show "verifyProtocolPath (IncomingRead r) chain defs = Inr ()"
      by (rule rd)
  next
    assume "constructAncestorMessageChain nw tenant (IncomingWrite w) store = Some (Inr chain)"
      and "fetchProtocolDefinition tenant (IncomingWrite w) chain store = Inr pd"
    then show "authorize nw tenant (IncomingWrite w) req store =
              Some (if terminalSegment declared \<notin> rd_id ` set (recordDefinitions pd)
                    then Inl (DwnError ProtocolAuthorizationInvalidRecordDefinition)
                    else if declared \<noteq> specProtocolPath chain declared
                    then Inl (DwnError ProtocolAuthorizationIncorrectProtocolPath)
                    else andThen (getRuleSet (IncomingWrite w) pd chain) (\<lambda>ruleSet.
                         andThen (verifyRecordDefinition (IncomingWrite w) pd) (\<lambda>_.
                         andThen (verifyAllowedActions tenant req Write ruleSet chain) (\<lambda>_.
                         verifyActionCondition tenant (IncomingWrite w) store))))"
      by (simp add: authorize_def andThen_def v)
  next
    assume "constructAncestorMessageChain nw tenant (IncomingRead r) store
              = Some (Inr readChain)"
      and "fetchProtocolDefinition tenant (IncomingRead r) readChain store = Inr pd"
    then show "authorize nw tenant (IncomingRead r) req store =
              Some (andThen (getRuleSet (IncomingRead r) pd readChain) (\<lambda>ruleSet.
                    andThen (verifyRecordDefinition (IncomingRead r) pd) (\<lambda>_.
                    andThen (verifyAllowedActions tenant req Read ruleSet readChain) (\<lambda>_.
                    verifyActionCondition tenant (IncomingRead r) store))))"
      by (simp add: authorize_def andThen_def rd)
  qed
qed

text \<open>The witness: under Alice's root record, Bob's write that declares \<open>foo/bar\<close> passes
  path verification, and his write that declares \<open>bar\<close> alone is refused by the
  authorization with IncorrectProtocolPath.\<close>

theorem verifyProtocolPath_iff_witness:
  "protocolPath (descriptor (message ex_barWrite)) = Some ''foo/bar''
   \<and> protocolPath (descriptor (message ex_wrongPathWrite)) = Some ''bar''
   \<and> protocolPath (descriptor ex_fooWrite) = Some ''foo''
   \<and> specProtocolPath [ex_fooWrite] ''foo/bar'' = ''foo/bar''
   \<and> specProtocolPath [ex_fooWrite] ''bar'' = ''foo/bar''
   \<and> terminalSegment ''foo/bar'' = ''bar''
   \<and> verifyProtocolPath (IncomingWrite ex_barWrite) [ex_fooWrite]
        (recordDefinitions ex_protocolDefinition) = Inr ()
   \<and> verifyProtocolPath (IncomingWrite ex_wrongPathWrite) [ex_fooWrite]
        (recordDefinitions ex_protocolDefinition)
       = Inl (DwnError ProtocolAuthorizationIncorrectProtocolPath)
   \<and> constructAncestorMessageChain ex_newestWrite ''did:alice''
        (IncomingWrite ex_wrongPathWrite) ex_messageStore = Some (Inr [ex_fooWrite])
   \<and> fetchProtocolDefinition ''did:alice'' (IncomingWrite ex_wrongPathWrite) [ex_fooWrite]
        ex_messageStore = Inr ex_protocolDefinition
   \<and> authorize ex_newestWrite ''did:alice'' (IncomingWrite ex_wrongPathWrite)
        (Some ''did:bob'') ex_messageStore
       = Some (Inl (DwnError ProtocolAuthorizationIncorrectProtocolPath))"
proof -
  have p: "protocolPath (descriptor (message ex_barWrite)) = Some ''foo/bar''"
    by (simp add: ex_barWrite_def)
  have p': "protocolPath (descriptor (message ex_wrongPathWrite)) = Some ''bar''"
    by (simp add: ex_wrongPathWrite_def)
  have a: "\<forall>a\<in>set [ex_fooWrite]. protocolPath (descriptor a) \<noteq> None"
    by (simp add: ex_fooWrite_def)
  have s: "specProtocolPath [ex_fooWrite] ''foo/bar'' = ''foo/bar''"
    "specProtocolPath [ex_fooWrite] ''bar'' = ''foo/bar''"
    "terminalSegment ''foo/bar'' = ''bar''" "terminalSegment ''bar'' = ''bar''"
    by (simp_all add: specProtocolPath_def ancestorTerminalSegment_def terminalSegment_def
          ex_fooWrite_def)
  have d: "rd_id ` set (recordDefinitions ex_protocolDefinition) = {''foo'', ''bar''}"
    by (simp add: ex_protocolDefinition_def)
  have f: "fetchProtocolDefinition ''did:alice'' (IncomingWrite ex_wrongPathWrite)
             [ex_fooWrite] ex_messageStore = Inr ex_protocolDefinition"
    by (rule ex_fetch) (simp add: ex_wrongPathWrite_def)
  show ?thesis
    using verifyProtocolPath_iff[OF p a, of "recordDefinitions ex_protocolDefinition"]
      verifyProtocolPath_iff[OF p' a, of "recordDefinitions ex_protocolDefinition" _
        ex_newestWrite "''did:alice''" ex_messageStore ex_protocolDefinition
        "Some ''did:bob''"]
      ex_chain_wrongPathWrite f p p' s
    by (simp add: d ex_fooWrite_def)
qed

subsection \<open>The owner-only default\<close>

text \<open>
  C7. When the rule set matched by the incoming message has no \<open>allow\<close> list, action
  verification succeeds iff the requester is the tenant; for any other requester (an
  anonymous one included) it fails with the "no allow rule defined" error.
\<close>

theorem verifyAllowedActions_owner_only:
  assumes "allow ruleSet = None"
  shows "((verifyAllowedActions tenant requesterDid m ruleSet chain = Inr ())
            = (requesterDid = Some tenant))
       \<and> (requesterDid \<noteq> Some tenant \<longrightarrow>
            verifyAllowedActions tenant requesterDid m ruleSet chain
              = Inl (Error NoAllowRuleDefined))"
  using assms by (simp add: verifyAllowedActions_def)

theorem verifyAllowedActions_owner_only_witness:
  "allow (ProtocolRuleSet None None) = None
   \<and> verifyAllowedActions ''did:alice'' (Some ''did:bob'') Write (ProtocolRuleSet None None) []
       = Inl (Error NoAllowRuleDefined)
   \<and> verifyAllowedActions ''did:alice'' (Some ''did:alice'') Write (ProtocolRuleSet None None) []
       = Inr ()"
  using verifyAllowedActions_owner_only
          [of "ProtocolRuleSet None None" "''did:alice''" "Some ''did:bob''" Write "[]"]
        verifyAllowedActions_owner_only
          [of "ProtocolRuleSet None None" "''did:alice''" "Some ''did:alice''" Write "[]"]
  by simp

subsection \<open>The author of a write that is not the initial write\<close>

text \<open>
  C8. For a write that is not the initial write of its record, the store is queried for
  \<open>entryId\<close> equal to the incoming \<open>recordId\<close>; with the first message returned as the
  stored initial write, the check fails iff the author of the incoming write differs from
  the author of the initial write, and then with the author-mismatch error; an
  authorization that has passed every earlier step fails on exactly that condition. An
  initial write and a read pass without the check.
\<close>

theorem verifyActionCondition_author_check:
  "(\<not> isInitialWrite w \<longrightarrow>
      queryRecordsWrite store tenant (entryIdFilter (recordId (message w)))
        = initialWrite # others \<longrightarrow>
      ((verifyActionCondition tenant (IncomingWrite w) store \<noteq> Inr ())
         = (author w \<noteq> signer initialWrite))
      \<and> (author w \<noteq> signer initialWrite \<longrightarrow>
           verifyActionCondition tenant (IncomingWrite w) store
             = Inl (Error AuthorMustMatchInitialWrite))
      \<and> (constructAncestorMessageChain nw tenant (IncomingWrite w) store = Some (Inr chain) \<longrightarrow>
         fetchProtocolDefinition tenant (IncomingWrite w) chain store = Inr pd \<longrightarrow>
         verifyProtocolPath (IncomingWrite w) chain (recordDefinitions pd) = Inr () \<longrightarrow>
         getRuleSet (IncomingWrite w) pd chain = Inr ruleSet \<longrightarrow>
         verifyRecordDefinition (IncomingWrite w) pd = Inr () \<longrightarrow>
         verifyAllowedActions tenant req Write ruleSet chain = Inr () \<longrightarrow>
           authorize nw tenant (IncomingWrite w) req store
             = Some (if author w \<noteq> signer initialWrite
                     then Inl (Error AuthorMustMatchInitialWrite) else Inr ())))
   \<and> (isInitialWrite w \<longrightarrow> verifyActionCondition tenant (IncomingWrite w) store = Inr ())
   \<and> verifyActionCondition tenant (IncomingRead r) store = Inr ()"
proof (intro conjI impI)
  assume n: "\<not> isInitialWrite w"
    and q: "queryRecordsWrite store tenant (entryIdFilter (recordId (message w)))
              = initialWrite # others"
  then have v: "verifyActionCondition tenant (IncomingWrite w) store
              = (if author w \<noteq> signer initialWrite
                 then Inl (Error AuthorMustMatchInitialWrite) else Inr ())"
    by (simp add: verifyActionCondition_def firstElement_def getAuthor_def)
  then show "(verifyActionCondition tenant (IncomingWrite w) store \<noteq> Inr ())
               = (author w \<noteq> signer initialWrite)"
    by simp
  {
    assume "author w \<noteq> signer initialWrite"
    with v show "verifyActionCondition tenant (IncomingWrite w) store
                   = Inl (Error AuthorMustMatchInitialWrite)"
      by simp
  }
  {
    assume "constructAncestorMessageChain nw tenant (IncomingWrite w) store = Some (Inr chain)"
      and "fetchProtocolDefinition tenant (IncomingWrite w) chain store = Inr pd"
      and "verifyProtocolPath (IncomingWrite w) chain (recordDefinitions pd) = Inr ()"
      and "getRuleSet (IncomingWrite w) pd chain = Inr ruleSet"
      and "verifyRecordDefinition (IncomingWrite w) pd = Inr ()"
      and a: "verifyAllowedActions tenant req Write ruleSet chain = Inr ()"
    then have "authorize nw tenant (IncomingWrite w) req store =
           Some (andThen (verifyAllowedActions tenant req (incomingMethod (IncomingWrite w))
                            ruleSet chain)
                   (\<lambda>_. verifyActionCondition tenant (IncomingWrite w) store))"
      by (intro authorize_steps)
    with a v show "authorize nw tenant (IncomingWrite w) req store
             = Some (if author w \<noteq> signer initialWrite
                     then Inl (Error AuthorMustMatchInitialWrite) else Inr ())"
      by (simp add: andThen_def)
  }
next
  assume "isInitialWrite w"
  then show "verifyActionCondition tenant (IncomingWrite w) store = Inr ()"
    by (simp add: verifyActionCondition_def)
next
  show "verifyActionCondition tenant (IncomingRead r) store = Inr ()"
    by (simp add: verifyActionCondition_def)
qed

text \<open>The witness: Bob's update of Alice's record \<open>rec-foo\<close> passes every step up to
  the author check (anyone may write a \<open>foo\<close>) and fails there; Alice's own update is
  authorized.\<close>

theorem verifyActionCondition_author_check_witness:
  "\<not> isInitialWrite (ex_fooUpdate ''did:bob'')
   \<and> queryRecordsWrite ex_messageStore ''did:alice''
        (entryIdFilter (recordId (message (ex_fooUpdate ''did:bob'')))) = [ex_fooWrite]
   \<and> author (ex_fooUpdate ''did:bob'') = Some ''did:bob''
   \<and> signer ex_fooWrite = Some ''did:alice''
   \<and> verifyActionCondition ''did:alice'' (IncomingWrite (ex_fooUpdate ''did:bob''))
        ex_messageStore = Inl (Error AuthorMustMatchInitialWrite)
   \<and> authorize ex_newestWrite ''did:alice'' (IncomingWrite (ex_fooUpdate ''did:bob''))
        (Some ''did:bob'') ex_messageStore = Some (Inl (Error AuthorMustMatchInitialWrite))
   \<and> authorize ex_newestWrite ''did:alice'' (IncomingWrite (ex_fooUpdate ''did:alice''))
        (Some ''did:alice'') ex_messageStore = Some (Inr ())
   \<and> isInitialWrite ex_barWrite
   \<and> verifyActionCondition ''did:alice'' (IncomingWrite ex_barWrite) ex_messageStore = Inr ()"
proof -
  have n: "\<not> isInitialWrite (ex_fooUpdate did)" for did
    by (simp add: ex_fooUpdate_def)
  have q: "queryRecordsWrite ex_messageStore ''did:alice''
        (entryIdFilter (recordId (message (ex_fooUpdate did)))) = [ex_fooWrite]" for did
    by (simp add: ex_store_defs ex_fooUpdate_def)
  have c: "constructAncestorMessageChain ex_newestWrite ''did:alice''
             (IncomingWrite (ex_fooUpdate did)) ex_messageStore = Some (Inr [])" for did
    by (simp add: constructAncestorMessageChain_def ex_fooUpdate_def walkAncestors_no_parent)
  have f: "fetchProtocolDefinition ''did:alice'' (IncomingWrite (ex_fooUpdate did)) []
             ex_messageStore = Inr ex_protocolDefinition" for did
    by (rule ex_fetch) (simp add: ex_fooUpdate_def)
  have s: "protocolPath (descriptor (message (ex_fooUpdate did))) = Some ''foo''"
    "schema (descriptor (message (ex_fooUpdate did))) = None" for did
    by (simp_all add: ex_fooUpdate_def)
  have a: "verifyAllowedActions ''did:alice'' req Write ex_fooRuleSet [] = Inr ()" for req
    by (simp add: verifyAllowedActions_def ex_fooRuleSet_def ex_anyoneWrite_def
          methodToAllowedActionMap_def)
  have u: "author (ex_fooUpdate did) = Some did" for did
    by (simp add: ex_fooUpdate_def)
  have i: "signer ex_fooWrite = Some ''did:alice''" by (simp add: ex_fooWrite_def)
  have b: "isInitialWrite ex_barWrite" by (simp add: ex_barWrite_def)
  show ?thesis
    using verifyActionCondition_author_check
            [of "ex_fooUpdate ''did:bob''" ex_messageStore "''did:alice''" ex_fooWrite "[]"
                ex_newestWrite "[]" ex_protocolDefinition ex_fooRuleSet "Some ''did:bob''"]
          verifyActionCondition_author_check
            [of "ex_fooUpdate ''did:alice''" ex_messageStore "''did:alice''" ex_fooWrite "[]"
                ex_newestWrite "[]" ex_protocolDefinition ex_fooRuleSet "Some ''did:alice''"]
          verifyActionCondition_author_check
            [of ex_barWrite ex_messageStore "''did:alice''"]
          n q c f ex_foo_steps[OF s] a u i b
    by simp
qed

subsection \<open>A mismatching allow rule aborts the authorization\<close>

text \<open>
  C9. Let an allow rule of the matched rule set have actor Author or Recipient and a
  \<open>protocolPath\<close> with at most as many segments as the ancestor chain has messages, one of
  whose segments differs from the record-definition id of the chain's message at the
  same index. Then action verification throws (the mismatch error, or a TypeError raised
  while reading a path) whatever the other rules grant, and so does an authorization that
  gets as far as action verification.
\<close>

theorem verifyAllowedActions_mismatch_throws:
  assumes "allow ruleSet = Some rules" and "r \<in> set rules"
    and "actor r = Author \<or> actor r = Recipient"
    and "rule_protocolPath r = Some p"
    and "length (js_split CHR ''/'' p) \<le> length chain"
    and "j < length (js_split CHR ''/'' p)"
    and "getRecordDefinitionId (protocolPath (descriptor (chain ! j)))
           \<noteq> Inr (js_split CHR ''/'' p ! j)"
  shows "(verifyAllowedActions tenant req m ruleSet chain = Inl (Error MismatchingRecordSchema)
          \<or> verifyAllowedActions tenant req m ruleSet chain = Inl TypeError)
       \<and> (constructAncestorMessageChain nw tenant incoming store = Some (Inr chain) \<longrightarrow>
          fetchProtocolDefinition tenant incoming chain store = Inr pd \<longrightarrow>
          verifyProtocolPath incoming chain (recordDefinitions pd) = Inr () \<longrightarrow>
          getRuleSet incoming pd chain = Inr ruleSet \<longrightarrow>
          verifyRecordDefinition incoming pd = Inr () \<longrightarrow>
            authorize nw tenant incoming req store = Some (Inl (Error MismatchingRecordSchema))
          \<or> authorize nw tenant incoming req store = Some (Inl TypeError))"
proof -
  have throws: "verifyAllowedActions tenant req m' ruleSet chain = Inl (Error MismatchingRecordSchema)
          \<or> verifyAllowedActions tenant req m' ruleSet chain = Inl TypeError" for m'
  proof -
    have "isl (getMessage chain (rule_protocolPath r))"
      using assms(4-7) getMessage_mismatch by simp
    then have "isl (collectAllowedActions req chain {} rules)"
      using assms(2,3) collectAllowedActions_throws by blast
    then obtain e where e: "collectAllowedActions req chain {} rules = Inl e"
      by (auto simp: isl_def)
    then have "e = Error MismatchingRecordSchema \<or> e = TypeError"
      by (rule collectAllowedActions_error)
    with e assms(1) show ?thesis
      by (auto simp: verifyAllowedActions_def)
  qed
  show ?thesis
  proof (intro conjI impI)
    show "verifyAllowedActions tenant req m ruleSet chain = Inl (Error MismatchingRecordSchema)
          \<or> verifyAllowedActions tenant req m ruleSet chain = Inl TypeError"
      by (rule throws)
  next
    assume "constructAncestorMessageChain nw tenant incoming store = Some (Inr chain)"
      and "fetchProtocolDefinition tenant incoming chain store = Inr pd"
      and "verifyProtocolPath incoming chain (recordDefinitions pd) = Inr ()"
      and "getRuleSet incoming pd chain = Inr ruleSet"
      and "verifyRecordDefinition incoming pd = Inr ()"
    then have "authorize nw tenant incoming req store =
           Some (andThen (verifyAllowedActions tenant req (incomingMethod incoming) ruleSet chain)
                   (\<lambda>_. verifyActionCondition tenant incoming store))"
      by (rule authorize_steps)
    with throws[of "incomingMethod incoming"]
    show "authorize nw tenant incoming req store = Some (Inl (Error MismatchingRecordSchema))
          \<or> authorize nw tenant incoming req store = Some (Inl TypeError)"
      by (auto simp: andThen_def)
  qed
qed

text \<open>The witness: Bob writes a \<open>bar\<close> record under Alice's \<open>foo\<close> record. The rule set of
  \<open>foo/bar\<close> lets anyone write, and has a second rule for the author of a \<open>baz\<close> record;
  the chain's only message is a \<open>foo\<close>, and the authorization throws.\<close>

theorem verifyAllowedActions_mismatch_throws_witness:
  "allow ex_barRuleSet = Some [ex_anyoneWrite, ex_authorOfBaz]
   \<and> actor ex_anyoneWrite = Anyone \<and> actions ex_anyoneWrite = [ActionWrite]
   \<and> actor ex_authorOfBaz = Author \<and> rule_protocolPath ex_authorOfBaz = Some ''baz''
   \<and> js_split CHR ''/'' ''baz'' = [''baz'']
   \<and> getRecordDefinitionId (protocolPath (descriptor ([ex_fooWrite] ! 0))) = Inr ''foo''
   \<and> verifyAllowedActions ''did:alice'' (Some ''did:bob'') Write ex_barRuleSet [ex_fooWrite]
       = Inl (Error MismatchingRecordSchema)
   \<and> verifyAllowedActions ''did:alice'' (Some ''did:bob'') Write
        (ProtocolRuleSet (Some [ex_anyoneWrite]) None) [ex_fooWrite] = Inr ()
   \<and> authorize ex_newestWrite ''did:alice'' (IncomingWrite ex_barWrite) (Some ''did:bob'')
        ex_messageStore = Some (Inl (Error MismatchingRecordSchema))"
proof -
  have a: "allow ex_barRuleSet = Some [ex_anyoneWrite, ex_authorOfBaz]"
    by (simp add: ex_barRuleSet_def)
  have r: "ex_authorOfBaz \<in> set [ex_anyoneWrite, ex_authorOfBaz]" by simp
  have k: "actor ex_authorOfBaz = Author \<or> actor ex_authorOfBaz = Recipient"
    by (simp add: ex_authorOfBaz_def)
  have p: "rule_protocolPath ex_authorOfBaz = Some ''baz''"
    by (simp add: ex_authorOfBaz_def)
  have l: "length (js_split CHR ''/'' ''baz'') \<le> length [ex_fooWrite]" by simp
  have j: "0 < length (js_split CHR ''/'' ''baz'')" by simp
  have g: "getRecordDefinitionId (protocolPath (descriptor ([ex_fooWrite] ! 0))) = Inr ''foo''"
    by (simp add: getRecordDefinitionId_def ex_fooWrite_def)
  then have d: "getRecordDefinitionId (protocolPath (descriptor ([ex_fooWrite] ! 0)))
           \<noteq> Inr (js_split CHR ''/'' ''baz'' ! 0)"
    by simp
  have f: "fetchProtocolDefinition ''did:alice'' (IncomingWrite ex_barWrite) [ex_fooWrite]
             ex_messageStore = Inr ex_protocolDefinition"
    by (rule ex_fetch) (simp add: ex_barWrite_def)
  have mm: "verifyAllowedActions ''did:alice'' (Some ''did:bob'') Write ex_barRuleSet
              [ex_fooWrite] = Inl (Error MismatchingRecordSchema)"
    by (simp add: verifyAllowedActions_def ex_barRuleSet_def ex_anyoneWrite_def
          ex_authorOfBaz_def getMessage_def getMessage_loop.simps getRecordDefinitionId_def
          ex_fooWrite_def)
  have anyone: "verifyAllowedActions ''did:alice'' (Some ''did:bob'') Write
        (ProtocolRuleSet (Some [ex_anyoneWrite]) None) [ex_fooWrite] = Inr ()"
    by (simp add: verifyAllowedActions_def ex_anyoneWrite_def methodToAllowedActionMap_def)
  have au: "authorize ex_newestWrite ''did:alice'' (IncomingWrite ex_barWrite)
        (Some ''did:bob'') ex_messageStore = Some (Inl (Error MismatchingRecordSchema))"
    using authorize_steps[OF ex_chain_barWrite f ex_path_barWrite ex_ruleSet_barWrite
            ex_recordDefinition_barWrite, of "Some ''did:bob''"] mm
    by (simp add: andThen_def)
  show ?thesis
    using verifyAllowedActions_mismatch_throws
            [OF a r k p l j d, of "''did:alice''" "Some ''did:bob''" Write ex_newestWrite
               "IncomingWrite ex_barWrite" ex_messageStore ex_protocolDefinition]
          mm au a p g anyone
    by (simp add: ex_anyoneWrite_def ex_authorOfBaz_def)
qed

subsection \<open>An update whose initial write is not stored\<close>

text \<open>
  C10. For a write that is not an initial write the first element of the result of the
  \<open>entryId\<close> query is used without a check that there is one. When the write has no
  \<open>parentId\<close> and the query returns nothing, the ancestor walk succeeds with the empty
  chain and the author comparison reads the author of \<^verbatim>\<open>undefined\<close>: the check ends in
  a TypeError, not in one of the authorizer's own errors, and so does an authorization
  that passes every earlier step.
\<close>

theorem verifyActionCondition_missing_initial_write:
  assumes "\<not> isInitialWrite w"
    and "parentId (descriptor (message w)) = None"
    and "queryRecordsWrite store tenant (entryIdFilter (recordId (message w))) = []"
  shows "constructAncestorMessageChain nw tenant (IncomingWrite w) store = Some (Inr [])
       \<and> firstElement (queryRecordsWrite store tenant
                         (entryIdFilter (recordId (message w)))) = None
       \<and> verifyActionCondition tenant (IncomingWrite w) store = Inl TypeError
       \<and> (fetchProtocolDefinition tenant (IncomingWrite w) [] store = Inr pd \<longrightarrow>
          verifyProtocolPath (IncomingWrite w) [] (recordDefinitions pd) = Inr () \<longrightarrow>
          getRuleSet (IncomingWrite w) pd [] = Inr ruleSet \<longrightarrow>
          verifyRecordDefinition (IncomingWrite w) pd = Inr () \<longrightarrow>
          verifyAllowedActions tenant req Write ruleSet [] = Inr () \<longrightarrow>
            authorize nw tenant (IncomingWrite w) req store = Some (Inl TypeError))"
proof -
  have c: "constructAncestorMessageChain nw tenant (IncomingWrite w) store = Some (Inr [])"
    using assms(2) by (simp add: constructAncestorMessageChain_def walkAncestors_no_parent)
  have v: "verifyActionCondition tenant (IncomingWrite w) store = Inl TypeError"
    using assms(1,3) by (simp add: verifyActionCondition_def firstElement_def getAuthor_def)
  show ?thesis
  proof (intro conjI impI)
    show "constructAncestorMessageChain nw tenant (IncomingWrite w) store = Some (Inr [])"
      by (rule c)
    show "firstElement (queryRecordsWrite store tenant
                          (entryIdFilter (recordId (message w)))) = None"
      using assms(3) by (simp add: firstElement_def)
    show "verifyActionCondition tenant (IncomingWrite w) store = Inl TypeError"
      by (rule v)
  next
    assume "fetchProtocolDefinition tenant (IncomingWrite w) [] store = Inr pd"
      and "verifyProtocolPath (IncomingWrite w) [] (recordDefinitions pd) = Inr ()"
      and "getRuleSet (IncomingWrite w) pd [] = Inr ruleSet"
      and "verifyRecordDefinition (IncomingWrite w) pd = Inr ()"
      and a: "verifyAllowedActions tenant req Write ruleSet [] = Inr ()"
    with c have "authorize nw tenant (IncomingWrite w) req store =
           Some (andThen (verifyAllowedActions tenant req (incomingMethod (IncomingWrite w))
                            ruleSet [])
                   (\<lambda>_. verifyActionCondition tenant (IncomingWrite w) store))"
      by (intro authorize_steps)
    with a v show "authorize nw tenant (IncomingWrite w) req store = Some (Inl TypeError)"
      by (simp add: andThen_def)
  qed
qed

theorem verifyActionCondition_missing_initial_write_witness:
  "\<not> isInitialWrite ex_orphanUpdate
   \<and> parentId (descriptor (message ex_orphanUpdate)) = None
   \<and> queryRecordsWrite ex_messageStore ''did:alice''
        (entryIdFilter (recordId (message ex_orphanUpdate))) = []
   \<and> constructAncestorMessageChain ex_newestWrite ''did:alice''
        (IncomingWrite ex_orphanUpdate) ex_messageStore = Some (Inr [])
   \<and> verifyAllowedActions ''did:alice'' (Some ''did:bob'') Write ex_fooRuleSet [] = Inr ()
   \<and> verifyActionCondition ''did:alice'' (IncomingWrite ex_orphanUpdate) ex_messageStore
       = Inl TypeError
   \<and> authorize ex_newestWrite ''did:alice'' (IncomingWrite ex_orphanUpdate)
        (Some ''did:bob'') ex_messageStore = Some (Inl TypeError)"
proof -
  have i: "\<not> isInitialWrite ex_orphanUpdate" by (simp add: ex_orphanUpdate_def)
  have n: "parentId (descriptor (message ex_orphanUpdate)) = None"
    by (simp add: ex_orphanUpdate_def)
  have q: "queryRecordsWrite ex_messageStore ''did:alice''
        (entryIdFilter (recordId (message ex_orphanUpdate))) = []"
    by (simp add: ex_store_defs ex_orphanUpdate_def)
  have f: "fetchProtocolDefinition ''did:alice'' (IncomingWrite ex_orphanUpdate) []
             ex_messageStore = Inr ex_protocolDefinition"
    by (rule ex_fetch) (simp add: ex_orphanUpdate_def)
  have s: "protocolPath (descriptor (message ex_orphanUpdate)) = Some ''foo''"
    "schema (descriptor (message ex_orphanUpdate)) = None"
    by (simp_all add: ex_orphanUpdate_def)
  have a: "verifyAllowedActions ''did:alice'' (Some ''did:bob'') Write ex_fooRuleSet [] = Inr ()"
    by (simp add: verifyAllowedActions_def ex_fooRuleSet_def ex_anyoneWrite_def
          methodToAllowedActionMap_def)
  show ?thesis
    using verifyActionCondition_missing_initial_write
            [OF i n q, of ex_newestWrite ex_protocolDefinition ex_fooRuleSet "Some ''did:bob''"]
          f ex_foo_steps[OF s] a i n q
    by simp
qed

section \<open>Properties of the revocation state machine\<close>

subsection \<open>The pair order\<close>

lemma revokePrecedes_asym: "revokePrecedes a b \<Longrightarrow> \<not> revokePrecedes b a"
  by (auto simp: revokePrecedes_def)

lemma revokePrecedes_trans:
  "revokePrecedes a b \<Longrightarrow> revokePrecedes b c \<Longrightarrow> revokePrecedes a c"
  by (auto simp: revokePrecedes_def)

lemma revokePrecedes_not_samePair: "revokePrecedes a b \<Longrightarrow> \<not> samePair b a"
  by (auto simp: revokePrecedes_def samePair_def)

lemma revokePrecedes_total:
  "revoke_cid a \<noteq> revoke_cid b \<Longrightarrow> revokePrecedes a b \<or> revokePrecedes b a"
  by (auto simp: revokePrecedes_def)

lemma earliestRevoke_snoc:
  "earliestRevoke (Rs @ [R]) =
     Some (case earliestRevoke Rs of None \<Rightarrow> R
           | Some m \<Rightarrow> if revokePrecedes R m then R else m)"
  by (cases Rs) auto

lemma earliestRevoke_least:
  "distinct (map revoke_cid Rs) \<Longrightarrow> earliestRevoke Rs = Some m \<Longrightarrow>
     m \<in> set Rs \<and> (\<forall>R \<in> set Rs. R = m \<or> revokePrecedes m R)"
proof (induction Rs arbitrary: m rule: rev_induct)
  case Nil
  then show ?case by simp
next
  case (snoc R Rs)
  show ?case
  proof (cases "earliestRevoke Rs")
    case None
    then have "Rs = []" by (cases Rs) auto
    with snoc.prems show ?thesis by simp
  next
    case (Some m0)
    from snoc.prems(1) have d: "distinct (map revoke_cid Rs)" by simp
    from snoc.IH[OF d Some]
    have m0: "m0 \<in> set Rs" "\<forall>R \<in> set Rs. R = m0 \<or> revokePrecedes m0 R"
      by auto
    from m0(1) snoc.prems(1) have ne: "revoke_cid R \<noteq> revoke_cid m0" by auto
    show ?thesis
    proof (cases "revokePrecedes R m0")
      case True
      with Some snoc.prems(2) have "m = R" by (simp add: earliestRevoke_snoc)
      with True m0(2) show ?thesis by (auto intro: revokePrecedes_trans)
    next
      case False
      with Some snoc.prems(2) have "m = m0" by (simp add: earliestRevoke_snoc)
      moreover from False ne have "revokePrecedes m0 R" using revokePrecedes_total by blast
      ultimately show ?thesis using m0 by auto
    qed
  qed
qed

lemma earliestRevoke_order_independent:
  assumes "distinct (map revoke_cid Rs)" and "distinct (map revoke_cid Rs')"
    and "set Rs' = set Rs"
  shows "earliestRevoke Rs' = earliestRevoke Rs"
proof (cases "earliestRevoke Rs")
  case None
  then have "Rs = []" by (cases Rs) auto
  with assms(3) show ?thesis by simp
next
  case (Some m)
  then have "Rs \<noteq> []" by auto
  with assms(3) have "Rs' \<noteq> []" by auto
  then obtain m' where m': "earliestRevoke Rs' = Some m'" by (cases Rs') auto
  from earliestRevoke_least[OF assms(1) Some] earliestRevoke_least[OF assms(2) m'] assms(3)
  have "m' = m \<or> revokePrecedes m m'" "m = m' \<or> revokePrecedes m' m" by auto
  then have "m' = m" using revokePrecedes_asym by blast
  with m' Some show ?thesis by simp
qed

subsection \<open>One step of the handler\<close>

lemma getGrant_cid: "getGrant gs g = Some G \<Longrightarrow> grant_cid G = g"
  by (induction gs) (auto simp: getGrant_def split: if_splits)

lemma fold_messageStore_delete:
  "fold (\<lambda>R' ms. messageStore_delete ms (revoke_cid R')) later ms
     = filter (\<lambda>m. revoke_cid m \<notin> revoke_cid ` set later) ms"
  by (induction later arbitrary: ms) (auto simp: messageStore_delete_def intro: filter_cong)

lemma length_filter_count_list:
  "length (filter (\<lambda>x. x \<noteq> c) xs) + count_list xs c = length xs"
  by (induction xs) auto

lemma handle_storedGrants:
  "storedGrants (snd (PermissionsRevokeHandler_handle s R)) = storedGrants s"
  by (simp add: PermissionsRevokeHandler_handle_def Let_def split: option.splits)

lemma handle_cids:
  "revoke_cid ` set (storedRevokes (snd (PermissionsRevokeHandler_handle s R)))
     \<subseteq> insert (revoke_cid R) (revoke_cid ` set (storedRevokes s))"
  by (auto simp: PermissionsRevokeHandler_handle_def Let_def fold_messageStore_delete
        messageStore_put_def split: option.splits if_splits)

lemma handle_superseded:
  assumes "getGrant (storedGrants s) (permissionsGrantId R) = Some G"
    and "\<not> revoke_messageTimestamp R < grant_messageTimestamp G"
    and "revoke_author R = grantedFor G"
    and "R' \<in> set (queryRevokes (storedRevokes s) (grant_cid G))"
    and "revokePrecedes R' R"
  shows "PermissionsRevokeHandler_handle s R = (Reply 409 (Some Superseded), s)"
  using assms
  by (auto simp: PermissionsRevokeHandler_handle_def Let_def list_ex_iff)

lemma handle_accepts_over_one:
  assumes "getGrant (storedGrants s) (permissionsGrantId R) = Some G"
    and "\<not> revoke_messageTimestamp R < grant_messageTimestamp G"
    and "revoke_author R = grantedFor G"
    and "queryRevokes (storedRevokes s) (grant_cid G) = [R']"
    and "revokePrecedes R R'"
  shows "PermissionsRevokeHandler_handle s R =
           (Reply 202 None,
            s \<lparr> storedRevokes :=
                  filter (\<lambda>m. revoke_cid m \<noteq> revoke_cid R')
                    (messageStore_put (storedRevokes s) R),
                eventLog :=
                  filter (\<lambda>c. c \<noteq> revoke_cid R') (eventLog s @ [revoke_cid R]) \<rparr>)"
proof -
  have "\<not> revokePrecedes R' R" "\<not> samePair R' R"
    using assms(5) revokePrecedes_asym revokePrecedes_not_samePair by blast+
  with assms show ?thesis
    by (simp add: PermissionsRevokeHandler_handle_def Let_def fold_messageStore_delete
          eventLog_append_def eventLog_deleteEventsByCid_def)
qed

lemma step_first:
  assumes "getGrant (storedGrants s) (grant_cid G) = Some G" and "validRevoke G R"
    and "queryRevokes (storedRevokes s) (grant_cid G) = []"
    and "revoke_cid R \<notin> revoke_cid ` set (storedRevokes s)"
  shows "queryRevokes (storedRevokes (snd (PermissionsRevokeHandler_handle s R))) (grant_cid G)
           = [R]"
  using assms
  by (simp add: PermissionsRevokeHandler_handle_def validRevoke_def Let_def messageStore_put_def
        queryRevokes_def)

lemma step_keep:
  assumes "getGrant (storedGrants s) (grant_cid G) = Some G" and "validRevoke G R"
    and "queryRevokes (storedRevokes s) (grant_cid G) = [M]"
    and "revokePrecedes M R"
  shows "PermissionsRevokeHandler_handle s R = (Reply 409 (Some Superseded), s)"
  using assms handle_superseded[of s R G M]
  by (simp add: validRevoke_def)

lemma step_replace:
  assumes "getGrant (storedGrants s) (grant_cid G) = Some G" and "validRevoke G R"
    and "queryRevokes (storedRevokes s) (grant_cid G) = [M]"
    and "revokePrecedes R M" and "revoke_cid R \<noteq> revoke_cid M"
    and "revoke_cid R \<notin> revoke_cid ` set (storedRevokes s)"
  shows "queryRevokes (storedRevokes (snd (PermissionsRevokeHandler_handle s R))) (grant_cid G)
           = [R]"
proof -
  have "filter (\<lambda>m. revoke_cid m \<noteq> revoke_cid M)
          (queryRevokes (storedRevokes s) (grant_cid G)) = []"
    using assms(3) by simp
  then have q: "filter (\<lambda>m. permissionsGrantId m = grant_cid G \<and> revoke_cid m \<noteq> revoke_cid M)
                  (storedRevokes s) = []"
    by (simp add: queryRevokes_def conj_commute)
  have "PermissionsRevokeHandler_handle s R =
           (Reply 202 None,
            s \<lparr> storedRevokes :=
                  filter (\<lambda>m. revoke_cid m \<noteq> revoke_cid M)
                    (messageStore_put (storedRevokes s) R),
                eventLog :=
                  filter (\<lambda>c. c \<noteq> revoke_cid M) (eventLog s @ [revoke_cid R]) \<rparr>)"
    using assms(1-4) by (intro handle_accepts_over_one) (simp_all add: validRevoke_def)
  with assms(2,5,6) q show ?thesis
    by (simp add: messageStore_put_def queryRevokes_def validRevoke_def conj_commute)
qed

subsection \<open>Processing a sequence of valid revokes\<close>

lemma processAll_snoc:
  "processAll s (Rs @ [R]) = snd (PermissionsRevokeHandler_handle (processAll s Rs) R)"
  by (simp add: processAll_def)

lemma processAll_invariant:
  assumes "getGrant (storedGrants s0) (grant_cid G) = Some G"
    and "queryRevokes (storedRevokes s0) (grant_cid G) = []"
  shows "distinct (map revoke_cid Rs) \<Longrightarrow>
         \<forall>R \<in> set Rs. revoke_cid R \<notin> revoke_cid ` set (storedRevokes s0) \<Longrightarrow>
         \<forall>R \<in> set Rs. validRevoke G R \<Longrightarrow>
         storedGrants (processAll s0 Rs) = storedGrants s0
         \<and> revoke_cid ` set (storedRevokes (processAll s0 Rs))
              \<subseteq> revoke_cid ` set (storedRevokes s0) \<union> revoke_cid ` set Rs
         \<and> queryRevokes (storedRevokes (processAll s0 Rs)) (grant_cid G)
              = (case earliestRevoke Rs of None \<Rightarrow> [] | Some m \<Rightarrow> [m])"
proof (induction Rs rule: rev_induct)
  case Nil
  then show ?case using assms by (simp add: processAll_def)
next
  case (snoc R Rs)
  let ?s = "processAll s0 Rs"
  from snoc.prems have d: "distinct (map revoke_cid Rs)"
    and f: "\<forall>R \<in> set Rs. revoke_cid R \<notin> revoke_cid ` set (storedRevokes s0)"
    and v: "\<forall>R \<in> set Rs. validRevoke G R" by auto
  from snoc.IH[OF d f v] have
    g: "storedGrants ?s = storedGrants s0" and
    c: "revoke_cid ` set (storedRevokes ?s)
          \<subseteq> revoke_cid ` set (storedRevokes s0) \<union> revoke_cid ` set Rs" and
    q: "queryRevokes (storedRevokes ?s) (grant_cid G)
          = (case earliestRevoke Rs of None \<Rightarrow> [] | Some m \<Rightarrow> [m])"
    by auto
  from g assms(1) have gg: "getGrant (storedGrants ?s) (grant_cid G) = Some G" by simp
  from snoc.prems have vR: "validRevoke G R" by simp
  from snoc.prems have "revoke_cid R \<notin> revoke_cid ` set (storedRevokes s0)"
    "revoke_cid R \<notin> revoke_cid ` set Rs" by auto
  with c have fresh: "revoke_cid R \<notin> revoke_cid ` set (storedRevokes ?s)" by blast
  have 1: "storedGrants (processAll s0 (Rs @ [R])) = storedGrants s0"
    by (simp add: processAll_snoc handle_storedGrants g)
  have 2: "revoke_cid ` set (storedRevokes (processAll s0 (Rs @ [R])))
              \<subseteq> revoke_cid ` set (storedRevokes s0) \<union> revoke_cid ` set (Rs @ [R])"
    using handle_cids[of ?s R] c by (auto simp: processAll_snoc)
  have 3: "queryRevokes (storedRevokes (processAll s0 (Rs @ [R]))) (grant_cid G)
              = (case earliestRevoke (Rs @ [R]) of None \<Rightarrow> [] | Some m \<Rightarrow> [m])"
  proof (cases "earliestRevoke Rs")
    case None
    with q have "queryRevokes (storedRevokes ?s) (grant_cid G) = []" by simp
    from step_first[OF gg vR this fresh] None show ?thesis
      by (simp add: processAll_snoc earliestRevoke_snoc)
  next
    case (Some m)
    with q have qm: "queryRevokes (storedRevokes ?s) (grant_cid G) = [m]" by simp
    from earliestRevoke_least[OF d Some] have "m \<in> set Rs" by simp
    with snoc.prems(1) have ne: "revoke_cid R \<noteq> revoke_cid m" by auto
    show ?thesis
    proof (cases "revokePrecedes R m")
      case True
      from step_replace[OF gg vR qm True ne fresh] True Some show ?thesis
        by (simp add: processAll_snoc earliestRevoke_snoc)
    next
      case False
      with ne have "revokePrecedes m R" using revokePrecedes_total by blast
      from step_keep[OF gg vR qm this] False Some qm show ?thesis
        by (simp add: processAll_snoc earliestRevoke_snoc)
    qed
  qed
  from 1 2 3 show ?case by blast
qed

subsection \<open>The scenarios of the functional tests\<close>

lemmas ex_revoke_defs =
  ex_grant_def ex_revoke_def ex_revokeEarly_def ex_revokeLate_def ex_revokeTie_def
  ex_revokeByBob_def ex_revokeByBobBeforeGrant_def ex_granted_def ex_revokedBy_def

lemmas handler_defs =
  PermissionsRevokeHandler_handle_def getGrant_def queryRevokes_def revokePrecedes_def
  samePair_def messageStore_put_def messageStore_delete_def eventLog_append_def
  eventLog_deleteEventsByCid_def Let_def

text \<open>S1 and S5: the grant is revoked (202); a second, later revoke gets 409.\<close>

lemma scenario_later_revoke_rejected:
  "PermissionsRevokeHandler_handle ex_granted ex_revokeEarly
     = (Reply 202 None, ex_revokedBy ex_revokeEarly)"
  "fst (PermissionsRevokeHandler_handle (ex_revokedBy ex_revokeEarly) ex_revokeLate)
     = Reply 409 (Some Superseded)"
  by (simp_all add: ex_revoke_defs handler_defs)

text \<open>S5, the duplicate: a stored revoke submitted again gets 409 and changes
  nothing.\<close>

lemma scenario_duplicate_revoke_rejected:
  "PermissionsRevokeHandler_handle (ex_revokedBy ex_revokeEarly) ex_revokeEarly
     = (Reply 409 (Some Superseded), ex_revokedBy ex_revokeEarly)"
  by (simp add: ex_revoke_defs handler_defs)

text \<open>S3: a revoke by the grant's \<open>grantedFor\<close> that is dated before the grant gets
  400.\<close>

lemma scenario_revoke_before_grant:
  "PermissionsRevokeHandler_handle ex_granted
     (ex_revoke ''bafyrevoke6'' ''2024-01-23T09:59:59.000000Z'' ''did:alice'')
     = (Reply 400 (Some RevokeBeforeGrant), ex_granted)"
  by (simp add: ex_revoke_defs handler_defs)

text \<open>S2: a revoke citing a grant that is not stored gets 400.\<close>

lemma scenario_grant_not_found:
  "fst (PermissionsRevokeHandler_handle
          \<lparr> storedGrants = [], storedRevokes = [], eventLog = [] \<rparr> ex_revokeEarly)
     = Reply 400 (Some GrantNotFound)"
  by (simp add: ex_revoke_defs handler_defs)

text \<open>S6: of two revokes with the same timestamp, the one with the smaller CID is
  accepted and the other then gets 409.\<close>

lemma scenario_same_timestamp_tiebreak:
  "revoke_messageTimestamp ex_revokeEarly = revoke_messageTimestamp ex_revokeTie"
  "revoke_cid ex_revokeEarly < revoke_cid ex_revokeTie"
  "fst (PermissionsRevokeHandler_handle (ex_revokedBy ex_revokeEarly) ex_revokeTie)
     = Reply 409 (Some Superseded)"
  by (simp_all add: ex_revoke_defs handler_defs)

text \<open>S7: an earlier revoke arriving after a later one is accepted; the event log
  keeps its length and now ends in the CID of the earlier revoke.\<close>

lemma scenario_retroactive_revoke:
  "PermissionsRevokeHandler_handle (ex_revokedBy ex_revokeLate) ex_revokeEarly
     = (Reply 202 None, ex_revokedBy ex_revokeEarly)"
  by (simp add: ex_revoke_defs handler_defs)

subsection \<open>Revoke convergence\<close>

text \<open>
  C1. Let the store hold the grant \<open>G\<close> and no revoke of it, and let \<open>Rs\<close> be a non-empty
  collection of revokes of \<open>G\<close> with pairwise distinct CIDs, none of them the CID of a
  stored revoke, each satisfying the author and timestamp preconditions. Processing them
  one after the other in any order \<open>submitted\<close> leaves exactly one revoke of \<open>G\<close> in the
  Message Store: the one that is least in the order on (messageTimestamp, CID).
\<close>

theorem revoke_convergence:
  assumes "getGrant (storedGrants s0) (grant_cid G) = Some G"
    and "queryRevokes (storedRevokes s0) (grant_cid G) = []"
    and "Rs \<noteq> []"
    and "distinct (map revoke_cid Rs)"
    and "\<forall>R \<in> set Rs. revoke_cid R \<notin> revoke_cid ` set (storedRevokes s0)"
    and "\<forall>R \<in> set Rs. validRevoke G R"
    and "set submitted = set Rs" and "distinct submitted"
  shows "\<exists>Rmin. earliestRevoke Rs = Some Rmin \<and> Rmin \<in> set Rs
           \<and> (\<forall>R \<in> set Rs. R = Rmin \<or> revokePrecedes Rmin R)
           \<and> queryRevokes (storedRevokes (processAll s0 submitted)) (grant_cid G) = [Rmin]"
proof -
  from assms(4) have inj: "inj_on revoke_cid (set Rs)" by (simp add: distinct_map)
  with assms(7,8) have d: "distinct (map revoke_cid submitted)" by (simp add: distinct_map)
  from assms(3) obtain m where m: "earliestRevoke Rs = Some m" by (cases Rs) auto
  from earliestRevoke_least[OF assms(4) m]
  have least: "m \<in> set Rs" "\<forall>R \<in> set Rs. R = m \<or> revokePrecedes m R" by auto
  from earliestRevoke_order_independent[OF assms(4) d assms(7)] m
  have m': "earliestRevoke submitted = Some m" by simp
  from processAll_invariant[OF assms(1,2) d] assms(5,6,7) m'
  have "queryRevokes (storedRevokes (processAll s0 submitted)) (grant_cid G) = [m]" by simp
  with m least show ?thesis by blast
qed

theorem revoke_convergence_witness:
  "getGrant (storedGrants ex_granted) (grant_cid ex_grant) = Some ex_grant
   \<and> queryRevokes (storedRevokes ex_granted) (grant_cid ex_grant) = []
   \<and> distinct (map revoke_cid [ex_revokeEarly, ex_revokeLate, ex_revokeTie])
   \<and> validRevoke ex_grant ex_revokeEarly \<and> validRevoke ex_grant ex_revokeLate
   \<and> validRevoke ex_grant ex_revokeTie
   \<and> earliestRevoke [ex_revokeEarly, ex_revokeLate, ex_revokeTie] = Some ex_revokeEarly
   \<and> queryRevokes (storedRevokes
        (processAll ex_granted [ex_revokeLate, ex_revokeTie, ex_revokeEarly]))
        (grant_cid ex_grant) = [ex_revokeEarly]
   \<and> queryRevokes (storedRevokes
        (processAll ex_granted [ex_revokeTie, ex_revokeEarly, ex_revokeLate]))
        (grant_cid ex_grant) = [ex_revokeEarly]"
proof -
  have g: "getGrant (storedGrants ex_granted) (grant_cid ex_grant) = Some ex_grant"
    by (simp add: ex_revoke_defs getGrant_def)
  have q: "queryRevokes (storedRevokes ex_granted) (grant_cid ex_grant) = []"
    by (simp add: ex_revoke_defs queryRevokes_def)
  have n: "[ex_revokeEarly, ex_revokeLate, ex_revokeTie] \<noteq> []" by simp
  have d: "distinct (map revoke_cid [ex_revokeEarly, ex_revokeLate, ex_revokeTie])"
    by (simp add: ex_revoke_defs)
  have f: "\<forall>R \<in> set [ex_revokeEarly, ex_revokeLate, ex_revokeTie].
             revoke_cid R \<notin> revoke_cid ` set (storedRevokes ex_granted)"
    by (simp add: ex_revoke_defs)
  have v: "validRevoke ex_grant ex_revokeEarly" "validRevoke ex_grant ex_revokeLate"
    "validRevoke ex_grant ex_revokeTie"
    by (simp_all add: ex_revoke_defs validRevoke_def)
  then have v': "\<forall>R \<in> set [ex_revokeEarly, ex_revokeLate, ex_revokeTie]. validRevoke ex_grant R"
    by simp
  have s1: "set [ex_revokeLate, ex_revokeTie, ex_revokeEarly]
              = set [ex_revokeEarly, ex_revokeLate, ex_revokeTie]" by auto
  have s2: "set [ex_revokeTie, ex_revokeEarly, ex_revokeLate]
              = set [ex_revokeEarly, ex_revokeLate, ex_revokeTie]" by auto
  have d1: "distinct [ex_revokeLate, ex_revokeTie, ex_revokeEarly]"
    and d2: "distinct [ex_revokeTie, ex_revokeEarly, ex_revokeLate]"
    by (simp_all add: ex_revoke_defs)
  have e: "earliestRevoke [ex_revokeEarly, ex_revokeLate, ex_revokeTie] = Some ex_revokeEarly"
    by (simp add: ex_revoke_defs revokePrecedes_def)
  show ?thesis
    using revoke_convergence[OF g q n d f v' s1 d1] revoke_convergence[OF g q n d f v' s2 d2]
      g q d v e
    by simp
qed

subsection \<open>Retroactive supersession\<close>

text \<open>
  C2 (as amended). Let \<open>R\<close> arrive for the stored grant \<open>G\<close>, authored by \<open>G\<close>'s
  \<open>grantedFor\<close> and not dated before \<open>G\<close>, and let the one stored revoke of \<open>G\<close> be \<open>R'\<close>,
  strictly greater than \<open>R\<close> in the order on (messageTimestamp, CID), with a CID other
  than \<open>R\<close>'s that occurs once in the Event Log. Then \<open>R\<close> is accepted with 202, \<open>R'\<close> is
  deleted from the Message Store, the CID of \<open>R\<close> is appended to the Event Log and the
  CID of \<open>R'\<close> is purged from it: the log keeps its length and ends in the CID of \<open>R\<close>.
\<close>

theorem retroactive_supersession:
  assumes "getGrant (storedGrants s) (permissionsGrantId R) = Some G"
    and "\<not> revoke_messageTimestamp R < grant_messageTimestamp G"
    and "revoke_author R = grantedFor G"
    and "queryRevokes (storedRevokes s) (grant_cid G) = [R']"
    and "revokePrecedes R R'"
    and "revoke_cid R \<noteq> revoke_cid R'"
    and "count_list (eventLog s) (revoke_cid R') = 1"
  shows "fst (PermissionsRevokeHandler_handle s R) = Reply 202 None
       \<and> R' \<notin> set (storedRevokes (snd (PermissionsRevokeHandler_handle s R)))
       \<and> eventLog (snd (PermissionsRevokeHandler_handle s R))
           = filter (\<lambda>c. c \<noteq> revoke_cid R') (eventLog s) @ [revoke_cid R]
       \<and> revoke_cid R' \<notin> set (eventLog (snd (PermissionsRevokeHandler_handle s R)))
       \<and> length (eventLog (snd (PermissionsRevokeHandler_handle s R))) = length (eventLog s)
       \<and> last (eventLog (snd (PermissionsRevokeHandler_handle s R))) = revoke_cid R"
proof -
  have h: "PermissionsRevokeHandler_handle s R =
           (Reply 202 None,
            s \<lparr> storedRevokes :=
                  filter (\<lambda>m. revoke_cid m \<noteq> revoke_cid R')
                    (messageStore_put (storedRevokes s) R),
                eventLog :=
                  filter (\<lambda>c. c \<noteq> revoke_cid R') (eventLog s @ [revoke_cid R]) \<rparr>)"
    using assms(1-5) by (rule handle_accepts_over_one)
  have len: "length (filter (\<lambda>c. c \<noteq> revoke_cid R') (eventLog s)) + 1 = length (eventLog s)"
    using length_filter_count_list[of "revoke_cid R'" "eventLog s"] assms(7) by simp
  from h assms(6) len show ?thesis by auto
qed

theorem retroactive_supersession_witness:
  "getGrant (storedGrants (ex_revokedBy ex_revokeLate)) (permissionsGrantId ex_revokeEarly)
     = Some ex_grant
   \<and> revoke_author ex_revokeEarly = grantedFor ex_grant
   \<and> queryRevokes (storedRevokes (ex_revokedBy ex_revokeLate)) (grant_cid ex_grant)
       = [ex_revokeLate]
   \<and> revokePrecedes ex_revokeEarly ex_revokeLate
   \<and> eventLog (ex_revokedBy ex_revokeLate) = [''bafygrant'', ''bafyrevoke2'']
   \<and> fst (PermissionsRevokeHandler_handle (ex_revokedBy ex_revokeLate) ex_revokeEarly)
       = Reply 202 None
   \<and> storedRevokes (snd (PermissionsRevokeHandler_handle (ex_revokedBy ex_revokeLate)
                          ex_revokeEarly)) = [ex_revokeEarly]
   \<and> eventLog (snd (PermissionsRevokeHandler_handle (ex_revokedBy ex_revokeLate)
                     ex_revokeEarly)) = [''bafygrant'', ''bafyrevoke1'']"
proof -
  have g: "getGrant (storedGrants (ex_revokedBy ex_revokeLate))
             (permissionsGrantId ex_revokeEarly) = Some ex_grant"
    by (simp add: ex_revoke_defs getGrant_def)
  have t: "\<not> revoke_messageTimestamp ex_revokeEarly < grant_messageTimestamp ex_grant"
    by (simp add: ex_revoke_defs)
  have a: "revoke_author ex_revokeEarly = grantedFor ex_grant"
    by (simp add: ex_revoke_defs)
  have q: "queryRevokes (storedRevokes (ex_revokedBy ex_revokeLate)) (grant_cid ex_grant)
             = [ex_revokeLate]"
    by (simp add: ex_revoke_defs queryRevokes_def)
  have p: "revokePrecedes ex_revokeEarly ex_revokeLate"
    by (simp add: ex_revoke_defs revokePrecedes_def)
  have c: "revoke_cid ex_revokeEarly \<noteq> revoke_cid ex_revokeLate"
    by (simp add: ex_revoke_defs)
  have n: "count_list (eventLog (ex_revokedBy ex_revokeLate)) (revoke_cid ex_revokeLate) = 1"
    by (simp add: ex_revoke_defs)
  have l: "eventLog (ex_revokedBy ex_revokeLate) = [''bafygrant'', ''bafyrevoke2'']"
    by (simp add: ex_revoke_defs)
  show ?thesis
    using retroactive_supersession[OF g t a q p c n] g a q p l scenario_retroactive_revoke
    by (simp add: ex_revoke_defs)
qed

text \<open>
  C2, as stated, fails: with Alice's later revoke stored, Bob's revoke of her grant is
  smaller in the pair order, and it is not accepted but rejected with 401; the stored
  revoke and the Event Log stay as they are.
\<close>

theorem retroactive_supersession_counterexample:
  "permissionsGrantId ex_revokeByBob = grant_cid ex_grant
   \<and> queryRevokes (storedRevokes (ex_revokedBy ex_revokeLate)) (grant_cid ex_grant)
       = [ex_revokeLate]
   \<and> revokePrecedes ex_revokeByBob ex_revokeLate
   \<and> PermissionsRevokeHandler_handle (ex_revokedBy ex_revokeLate) ex_revokeByBob
       = (Reply 401 (Some PermissionsRevokeUnauthorizedRevoke), ex_revokedBy ex_revokeLate)
   \<and> ex_revokeLate \<in> set (storedRevokes (ex_revokedBy ex_revokeLate))
   \<and> last (eventLog (ex_revokedBy ex_revokeLate)) = revoke_cid ex_revokeLate"
  by (simp add: ex_revoke_defs handler_defs)

subsection \<open>Rejection of a superseded revoke\<close>

text \<open>
  C3 (as amended). Let \<open>R\<close> arrive for the stored grant \<open>G\<close>, authored by \<open>G\<close>'s
  \<open>grantedFor\<close> and not dated before \<open>G\<close>. If the Message Store holds a revoke \<open>R'\<close> of \<open>G\<close>
  with an earlier timestamp, or with the same timestamp and a lexicographically smaller
  CID, then processing \<open>R\<close> returns 409 and leaves the stores unchanged.
\<close>

theorem superseded_revoke_rejected:
  assumes "getGrant (storedGrants s) (permissionsGrantId R) = Some G"
    and "\<not> revoke_messageTimestamp R < grant_messageTimestamp G"
    and "revoke_author R = grantedFor G"
    and "R' \<in> set (storedRevokes s)" and "permissionsGrantId R' = grant_cid G"
    and "revoke_messageTimestamp R' < revoke_messageTimestamp R
         \<or> (revoke_messageTimestamp R' = revoke_messageTimestamp R
            \<and> revoke_cid R' < revoke_cid R)"
  shows "PermissionsRevokeHandler_handle s R = (Reply 409 (Some Superseded), s)"
proof -
  from assms(4,5) have "R' \<in> set (queryRevokes (storedRevokes s) (grant_cid G))"
    by (simp add: queryRevokes_def)
  moreover from assms(6) have "revokePrecedes R' R" by (simp add: revokePrecedes_def)
  ultimately show ?thesis using assms(1-3) by (intro handle_superseded)
qed

theorem superseded_revoke_rejected_witness:
  "getGrant (storedGrants (ex_revokedBy ex_revokeEarly)) (permissionsGrantId ex_revokeTie)
     = Some ex_grant
   \<and> revoke_author ex_revokeTie = grantedFor ex_grant
   \<and> ex_revokeEarly \<in> set (storedRevokes (ex_revokedBy ex_revokeEarly))
   \<and> revoke_messageTimestamp ex_revokeEarly = revoke_messageTimestamp ex_revokeTie
   \<and> revoke_cid ex_revokeEarly < revoke_cid ex_revokeTie
   \<and> PermissionsRevokeHandler_handle (ex_revokedBy ex_revokeEarly) ex_revokeTie
       = (Reply 409 (Some Superseded), ex_revokedBy ex_revokeEarly)
   \<and> revoke_messageTimestamp ex_revokeEarly < revoke_messageTimestamp ex_revokeLate
   \<and> PermissionsRevokeHandler_handle (ex_revokedBy ex_revokeEarly) ex_revokeLate
       = (Reply 409 (Some Superseded), ex_revokedBy ex_revokeEarly)"
proof -
  have g: "getGrant (storedGrants (ex_revokedBy ex_revokeEarly))
             (permissionsGrantId ex_revokeTie) = Some ex_grant"
    "getGrant (storedGrants (ex_revokedBy ex_revokeEarly))
             (permissionsGrantId ex_revokeLate) = Some ex_grant"
    by (simp_all add: ex_revoke_defs getGrant_def)
  have t: "\<not> revoke_messageTimestamp ex_revokeTie < grant_messageTimestamp ex_grant"
    "\<not> revoke_messageTimestamp ex_revokeLate < grant_messageTimestamp ex_grant"
    by (simp_all add: ex_revoke_defs)
  have a: "revoke_author ex_revokeTie = grantedFor ex_grant"
    "revoke_author ex_revokeLate = grantedFor ex_grant"
    by (simp_all add: ex_revoke_defs)
  have m: "ex_revokeEarly \<in> set (storedRevokes (ex_revokedBy ex_revokeEarly))"
    by (simp add: ex_revokedBy_def)
  have i: "permissionsGrantId ex_revokeEarly = grant_cid ex_grant"
    by (simp add: ex_revoke_defs)
  have o1: "revoke_messageTimestamp ex_revokeEarly = revoke_messageTimestamp ex_revokeTie"
    "revoke_cid ex_revokeEarly < revoke_cid ex_revokeTie"
    by (simp_all add: ex_revoke_defs)
  have o2: "revoke_messageTimestamp ex_revokeEarly < revoke_messageTimestamp ex_revokeLate"
    by (simp add: ex_revoke_defs)
  show ?thesis
    using superseded_revoke_rejected[OF g(1) t(1) a(1) m i]
          superseded_revoke_rejected[OF g(2) t(2) a(2) m i]
          g a m o1 o2
    by simp
qed

text \<open>
  C3, as stated, fails: with Alice's revoke stored, Bob's later revoke of her grant is
  greater in the pair order, and the reply is 401, not 409.
\<close>

theorem superseded_revoke_rejected_counterexample:
  "permissionsGrantId ex_revokeByBob = grant_cid ex_grant
   \<and> ex_revokeEarly \<in> set (storedRevokes (ex_revokedBy ex_revokeEarly))
   \<and> permissionsGrantId ex_revokeEarly = grant_cid ex_grant
   \<and> revoke_messageTimestamp ex_revokeEarly < revoke_messageTimestamp ex_revokeByBob
   \<and> code (fst (PermissionsRevokeHandler_handle (ex_revokedBy ex_revokeEarly) ex_revokeByBob))
       = 401
   \<and> code (fst (PermissionsRevokeHandler_handle (ex_revokedBy ex_revokeEarly) ex_revokeByBob))
       \<noteq> 409"
  by (simp add: ex_revoke_defs handler_defs)

subsection \<open>Rejection of an unauthorized revoke\<close>

text \<open>
  C4. Let \<open>R\<close> cite the stored grant \<open>G\<close>. If the author of \<open>R\<close> is not \<open>G\<close>'s
  \<open>grantedFor\<close>, processing \<open>R\<close> returns 401 with the code
  PermissionsRevokeUnauthorizedRevoke, whatever the timestamp of \<open>R\<close> and whatever revokes
  are stored; the stores are left unchanged, so the grant is as unrevoked as it was.
\<close>

theorem unauthorized_revoke_rejected:
  assumes "getGrant (storedGrants s) (permissionsGrantId R) = Some G"
    and "revoke_author R \<noteq> grantedFor G"
  shows "PermissionsRevokeHandler_handle s R
           = (Reply 401 (Some PermissionsRevokeUnauthorizedRevoke), s)
       \<and> queryRevokes (storedRevokes (snd (PermissionsRevokeHandler_handle s R))) (grant_cid G)
           = queryRevokes (storedRevokes s) (grant_cid G)"
  using assms by (simp add: PermissionsRevokeHandler_handle_def)

text \<open>The witness: Bob's revokes of Alice's grant, the one dated after the grant and
  the one dated before it, both get 401 and no revoke is stored.\<close>

theorem unauthorized_revoke_rejected_witness:
  "getGrant (storedGrants ex_granted) (permissionsGrantId ex_revokeByBob) = Some ex_grant
   \<and> grantedFor ex_grant = ''did:alice'' \<and> revoke_author ex_revokeByBob = ''did:bob''
   \<and> PermissionsRevokeHandler_handle ex_granted ex_revokeByBob
       = (Reply 401 (Some PermissionsRevokeUnauthorizedRevoke), ex_granted)
   \<and> queryRevokes (storedRevokes (snd (PermissionsRevokeHandler_handle ex_granted
                                          ex_revokeByBob))) (grant_cid ex_grant) = []
   \<and> revoke_author ex_revokeByBobBeforeGrant = ''did:bob''
   \<and> revoke_messageTimestamp ex_revokeByBobBeforeGrant < grant_messageTimestamp ex_grant
   \<and> PermissionsRevokeHandler_handle ex_granted ex_revokeByBobBeforeGrant
       = (Reply 401 (Some PermissionsRevokeUnauthorizedRevoke), ex_granted)"
proof -
  have g: "getGrant (storedGrants ex_granted) (permissionsGrantId ex_revokeByBob)
             = Some ex_grant"
    "getGrant (storedGrants ex_granted) (permissionsGrantId ex_revokeByBobBeforeGrant)
             = Some ex_grant"
    by (simp_all add: ex_revoke_defs getGrant_def)
  have a: "revoke_author ex_revokeByBob \<noteq> grantedFor ex_grant"
    "revoke_author ex_revokeByBobBeforeGrant \<noteq> grantedFor ex_grant"
    by (simp_all add: ex_revoke_defs)
  have q: "queryRevokes (storedRevokes ex_granted) (grant_cid ex_grant) = []"
    by (simp add: ex_revoke_defs queryRevokes_def)
  have t: "revoke_messageTimestamp ex_revokeByBobBeforeGrant < grant_messageTimestamp ex_grant"
    by (simp add: ex_revoke_defs)
  show ?thesis
    using unauthorized_revoke_rejected[OF g(1) a(1)] unauthorized_revoke_rejected[OF g(2) a(2)]
      g q t
    by (simp add: ex_revoke_defs)
qed

end
